theory Spec2Isabelle
  imports Complex_Main "HOL-Library.AList" "HOL-Library.Sublist"
begin

section \<open>JSON values and the Python operations used on them\<close>

text \<open>
  \<^verbatim>\<open>json.load\<close> and \<^verbatim>\<open>json.loads\<close> build Python values out of a JSON text: \<^verbatim>\<open>None\<close>,
  booleans, integers, floats, strings, lists, and dictionaries keyed by strings. A
  dictionary keeps its keys in insertion order, so it is an association list here;
  Python never holds the same key twice, and no result below depends on that.
  Strings are lists of characters, a character beyond ASCII being the bytes of its
  UTF-8 form; floats are the finite ones. A value came out of a parser, so no two
  places of it share an object: updating a dictionary in place is rebuilding the value
  around it.
\<close>

datatype json =
    JNull
  | JBool bool
  | JInt int
  | JFloat real
  | JStr string
  | JList "json list"
  | JObj "(string \<times> json) list"

type_synonym dict = "(string \<times> json) list"

text \<open>
  The exceptions of the program. \<open>HTTPException\<close> carries its status code and what its
  detail string is built from (the exception \<^verbatim>\<open>e\<close> of \<^verbatim>\<open>str(e)\<close>, the payload of an
  error event). \<open>TransportError\<close> and \<open>HTTPStatusError\<close> are the two kinds of
  \<^verbatim>\<open>httpx.HTTPError\<close>.
\<close>

datatype detail =
    NoPromptId
  | FailedToConnect exn
  | TimeoutWaiting
  | ExecutionErrorDetail json
  | WebSocketErrorDetail exn
  | FailedToGetHistory exn
  | PromptIdNotInHistory
  | NoOutputImages
  | NoFilename
  | FailedToDownload exn
and exn =
    HTTPException nat detail
  | AttributeError
  | TypeError
  | KeyError
  | IndexError
  | JSONDecodeError
  | OSError
  | ConnectionClosed
  | TransportError string
  | HTTPStatusError nat

text \<open>\<^verbatim>\<open>d.get(k, default)\<close> and \<^verbatim>\<open>d[k] = v\<close> on a dictionary: an assignment to a key the
  dictionary has keeps the key's place, a new key goes last.\<close>

definition dict_get :: "dict \<Rightarrow> string \<Rightarrow> json \<Rightarrow> json" where
  "dict_get d k dflt = (case map_of d k of None \<Rightarrow> dflt | Some v \<Rightarrow> v)"

definition dict_set :: "dict \<Rightarrow> string \<Rightarrow> json \<Rightarrow> dict" where
  "dict_set d k v = AList.update k v d"

text \<open>\<^verbatim>\<open>x.get(k, default)\<close> on any value: only a dictionary has the method.\<close>

definition py_get :: "json \<Rightarrow> string \<Rightarrow> json \<Rightarrow> exn + json" where
  "py_get x k dflt = (case x of JObj d \<Rightarrow> Inr (dict_get d k dflt) | _ \<Rightarrow> Inl AttributeError)"

text \<open>
  \<^verbatim>\<open>s.lower()\<close>. Only the capitals \<open>A\<close> to \<open>Z\<close> change here. Python also lowers capitals
  outside ASCII, into characters outside ASCII; the two exceptions are U+212A, which
  becomes \<open>k\<close>, and U+0130, which becomes \<open>i\<close> followed by a combining dot. The words
  searched below are \<^verbatim>\<open>negative\<close> and \<^verbatim>\<open>bad\<close>: they have no \<open>k\<close>, and their \<open>i\<close> is followed
  by \<open>v\<close>, so they are found in the same texts.
\<close>

definition lower_char :: "char \<Rightarrow> char" where
  "lower_char c =
     (let n = (of_char c :: nat) in if 65 \<le> n \<and> n \<le> 90 then char_of (n + 32) else c)"

definition lower :: "string \<Rightarrow> string" where
  "lower s = map lower_char s"

text \<open>\<^verbatim>\<open>needle in hay\<close> on strings: \<open>needle\<close> occurs in \<open>hay\<close> as a contiguous run.\<close>

fun str_contains :: "string \<Rightarrow> string \<Rightarrow> bool" where
  "str_contains [] needle = (needle = [])"
| "str_contains (c # cs) needle = (prefix needle (c # cs) \<or> str_contains cs needle)"

section \<open>The workflow mutator\<close>

text \<open>
  \<^verbatim>\<open>modify_workflow\<close> walks the items of the workflow in order. What it prints is kept
  as a list of lines, the flag \<^verbatim>\<open>modified\<close> and the number of UUIDs drawn so far are
  the loop's state. \<open>uuid4 k\<close> is the integer of the \<open>k\<close>-th UUID that
  \<^verbatim>\<open>uuid.uuid4()\<close> hands out.
\<close>

datatype printed =
    SetNegative string
  | SetPositive string
  | RandomizedSeed string json
  | WarningNoNodes

record mstate =
  modified :: bool
  draws :: nat
  out :: "printed list"

text \<open>
  \<^verbatim>\<open>inputs = node_data.get("inputs", {})\<close> followed by \<^verbatim>\<open>inputs[k] = v\<close>: with the key
  \<^verbatim>\<open>"inputs"\<close> present and a dictionary, the node's own dictionary is updated; with the
  key absent the assignment goes to a fresh dictionary that nothing else refers to,
  and the node stays as it was; any other value does not take the assignment.
\<close>

definition assign_input :: "dict \<Rightarrow> string \<Rightarrow> json \<Rightarrow> exn + dict" where
  "assign_input node_data k v =
     (case map_of node_data ''inputs'' of
        None \<Rightarrow> Inr node_data
      | Some (JObj inputs) \<Rightarrow> Inr (dict_set node_data ''inputs'' (JObj (dict_set inputs k v)))
      | Some _ \<Rightarrow> Inl TypeError)"

text \<open>The test \<^verbatim>\<open>"negative" in current_text.lower() or "bad" in current_text.lower()\<close>;
  only a string has \<^verbatim>\<open>lower\<close>.\<close>

definition is_negative_slot :: "json \<Rightarrow> exn + bool" where
  "is_negative_slot current_text =
     (case current_text of
        JStr s \<Rightarrow> Inr (str_contains (lower s) ''negative'' \<or> str_contains (lower s) ''bad'')
      | _ \<Rightarrow> Inl AttributeError)"

definition modify_node ::
  "(nat \<Rightarrow> int) \<Rightarrow> string \<Rightarrow> string \<Rightarrow> string \<Rightarrow> json \<Rightarrow> mstate \<Rightarrow> exn + (json \<times> mstate)" where
  "modify_node uuid4 positive_prompt negative_prompt node_id node_data st =
     (case node_data of
        JObj nd \<Rightarrow>
          (let class_type = dict_get nd ''class_type'' (JStr '''') in
           if class_type = JStr ''CLIPTextEncode'' then
             (case py_get (dict_get nd ''inputs'' (JObj [])) ''text'' (JStr '''') of
                Inl e \<Rightarrow> Inl e
              | Inr current_text \<Rightarrow>
                  (case is_negative_slot current_text of
                     Inl e \<Rightarrow> Inl e
                   | Inr True \<Rightarrow>
                       (case assign_input nd ''text'' (JStr negative_prompt) of
                          Inl e \<Rightarrow> Inl e
                        | Inr nd' \<Rightarrow>
                            Inr (JObj nd',
                                 st\<lparr>modified := True, out := out st @ [SetNegative node_id]\<rparr>))
                   | Inr False \<Rightarrow>
                       (case assign_input nd ''text'' (JStr positive_prompt) of
                          Inl e \<Rightarrow> Inl e
                        | Inr nd' \<Rightarrow>
                            Inr (JObj nd',
                                 st\<lparr>modified := True, out := out st @ [SetPositive node_id]\<rparr>))))
           else if class_type = JStr ''KSampler'' then
             (let seed = JInt (uuid4 (draws st) mod 2 ^ 32) in
              case assign_input nd ''seed'' seed of
                Inl e \<Rightarrow> Inl e
              | Inr nd' \<Rightarrow>
                  Inr (JObj nd',
                       st\<lparr>modified := True, draws := Suc (draws st),
                          out := out st @ [RandomizedSeed node_id seed]\<rparr>))
           else Inr (node_data, st))
      | _ \<Rightarrow> Inr (node_data, st))"

fun modify_items ::
  "(nat \<Rightarrow> int) \<Rightarrow> string \<Rightarrow> string \<Rightarrow> dict \<Rightarrow> mstate \<Rightarrow> exn + (dict \<times> mstate)" where
  "modify_items uuid4 positive_prompt negative_prompt [] st = Inr ([], st)"
| "modify_items uuid4 positive_prompt negative_prompt ((node_id, node_data) # rest) st =
     (case modify_node uuid4 positive_prompt negative_prompt node_id node_data st of
        Inl e \<Rightarrow> Inl e
      | Inr (node_data', st') \<Rightarrow>
          (case modify_items uuid4 positive_prompt negative_prompt rest st' of
             Inl e \<Rightarrow> Inl e
           | Inr (rest', st'') \<Rightarrow> Inr ((node_id, node_data') # rest', st'')))"

record mutated =
  graph :: dict
  printed_lines :: "printed list"

definition modify_workflow ::
  "(nat \<Rightarrow> int) \<Rightarrow> dict \<Rightarrow> string \<Rightarrow> string \<Rightarrow> exn + mutated" where
  "modify_workflow uuid4 workflow positive_prompt negative_prompt =
     (case modify_items uuid4 positive_prompt negative_prompt workflow
             \<lparr>modified = False, draws = 0, out = []\<rparr> of
        Inl e \<Rightarrow> Inl e
      | Inr (workflow', st) \<Rightarrow>
          Inr \<lparr>graph = workflow',
               printed_lines = (if \<not> modified st then out st @ [WarningNoNodes] else out st)\<rparr>)"

section \<open>The completion watcher\<close>

text \<open>
  A received message is represented by what \<^verbatim>\<open>json.loads\<close> makes of it: a value,
  or \<^verbatim>\<open>JSONDecodeError\<close>. One \<^verbatim>\<open>await asyncio.wait_for(websocket.recv(), timeout=5.0)\<close>
  ends in one of three ways: the five time units pass, a message arrives, or the
  connection is found closed.
\<close>

datatype message = ValidJson json | InvalidJson

datatype recv_outcome = RecvTimeout | RecvMessage message | RecvClosed

definition json_loads :: "message \<Rightarrow> exn + json" where
  "json_loads m = (case m of ValidJson data \<Rightarrow> Inr data | InvalidJson \<Rightarrow> Inl JSONDecodeError)"

text \<open>What the body of the inner \<^verbatim>\<open>try\<close> does with one message: go round the loop
  again, return, or raise.\<close>

datatype step = Continue | Return bool | Raise exn

definition handle_message :: "string \<Rightarrow> message \<Rightarrow> step" where
  "handle_message prompt_id message =
     (case json_loads message of
        Inl e \<Rightarrow> Raise e
      | Inr data \<Rightarrow>
          (case py_get data ''type'' JNull of
             Inl e \<Rightarrow> Raise e
           | Inr msg_type \<Rightarrow>
               if msg_type = JStr ''executing'' then
                 (case py_get data ''data'' (JObj []) of
                    Inl e \<Rightarrow> Raise e
                  | Inr exec_data \<Rightarrow>
                      (case py_get exec_data ''prompt_id'' JNull of
                         Inl e \<Rightarrow> Raise e
                       | Inr exec_prompt_id \<Rightarrow>
                           (case py_get exec_data ''node'' JNull of
                              Inl e \<Rightarrow> Raise e
                            | Inr node \<Rightarrow>
                                if exec_prompt_id = JStr prompt_id \<and> node = JNull
                                then Return True else Continue)))
               else if msg_type = JStr ''execution_error'' then
                 (case py_get data ''data'' (JObj []) of
                    Inl e \<Rightarrow> Raise e
                  | Inr error_data \<Rightarrow>
                      (case py_get error_data ''prompt_id'' JNull of
                         Inl e \<Rightarrow> Raise e
                       | Inr error_prompt_id \<Rightarrow>
                           if error_prompt_id = JStr prompt_id
                           then Raise (HTTPException 500 (ExecutionErrorDetail error_data))
                           else Continue))
               else Continue))"

text \<open>
  The environment of one watch: whether \<^verbatim>\<open>websockets.connect\<close> raises, the successive
  readings of the event loop's clock (\<open>clock 0\<close> is \<^verbatim>\<open>start_time\<close>, \<open>clock (Suc i)\<close> the
  reading at the top of round \<open>i\<close> of the loop) and the outcome of the receive of round
  \<open>i\<close>. Times are real numbers.
\<close>

record watch_env =
  connect_error :: "exn option"
  clock :: "nat \<Rightarrow> real"
  recv :: "nat \<Rightarrow> recv_outcome"

definition round_step :: "string \<Rightarrow> recv_outcome \<Rightarrow> step" where
  "round_step prompt_id r =
     (case r of
        RecvTimeout \<Rightarrow> Continue
      | RecvMessage message \<Rightarrow> handle_message prompt_id message
      | RecvClosed \<Rightarrow> Raise ConnectionClosed)"

text \<open>The \<^verbatim>\<open>while True\<close> loop from round \<open>i\<close> on; \<open>None\<close> is a loop that never ends.\<close>

partial_function (option) watch_loop ::
  "watch_env \<Rightarrow> real \<Rightarrow> real \<Rightarrow> string \<Rightarrow> nat \<Rightarrow> (exn + bool) option" where
  "watch_loop env start_time timeout prompt_id i =
     (if clock env (Suc i) - start_time > timeout
      then Some (Inl (HTTPException 504 TimeoutWaiting))
      else (case round_step prompt_id (recv env i) of
              Continue \<Rightarrow> watch_loop env start_time timeout prompt_id (Suc i)
            | Return b \<Rightarrow> Some (Inr b)
            | Raise e \<Rightarrow> Some (Inl e)))"

text \<open>The outer handler: an \<open>HTTPException\<close> goes through, anything else becomes status
  500 with the detail \<^verbatim>\<open>WebSocket error: ...\<close>.\<close>

definition websocket_error :: "exn \<Rightarrow> exn" where
  "websocket_error e =
     (case e of HTTPException code d \<Rightarrow> e | _ \<Rightarrow> HTTPException 500 (WebSocketErrorDetail e))"

definition seen_by_caller :: "(exn + bool) option \<Rightarrow> (exn + bool) option" where
  "seen_by_caller r =
     (case r of
        None \<Rightarrow> None
      | Some (Inl e) \<Rightarrow> Some (Inl (websocket_error e))
      | Some (Inr b) \<Rightarrow> Some (Inr b))"

text \<open>What the caller gets of the watch once round \<open>i\<close> is reached, and
  \<^verbatim>\<open>wait_for_completion\<close> itself: the connection, then the loop from round 0.\<close>

definition watch_from :: "watch_env \<Rightarrow> string \<Rightarrow> real \<Rightarrow> nat \<Rightarrow> (exn + bool) option" where
  "watch_from env prompt_id timeout i =
     seen_by_caller (watch_loop env (clock env 0) timeout prompt_id i)"

definition wait_for_completion :: "watch_env \<Rightarrow> string \<Rightarrow> real \<Rightarrow> (exn + bool) option" where
  "wait_for_completion env prompt_id timeout =
     (case connect_error env of
        Some e \<Rightarrow> Some (Inl (websocket_error e))
      | None \<Rightarrow> watch_from env prompt_id timeout 0)"

text \<open>The deadline that \<^verbatim>\<open>generate_image\<close> leaves to the default of the parameter.\<close>

definition default_timeout :: real where
  "default_timeout = 300"

section \<open>Requests to the remote service\<close>

text \<open>
  A request through \<^verbatim>\<open>httpx\<close> either raises a transport error (the service cannot be
  reached, the request times out) or brings a response back. Of a response the program
  reads the status, the body as bytes (\<^verbatim>\<open>response.content\<close>) and the body as JSON
  (\<^verbatim>\<open>response.json()\<close>, which raises when the body is not JSON).
\<close>

record response =
  status_code :: nat
  content :: string
  json_body :: "json option"

datatype http_outcome = RequestFails string | Responds response

definition send_request :: "http_outcome \<Rightarrow> exn + response" where
  "send_request outcome =
     (case outcome of RequestFails msg \<Rightarrow> Inl (TransportError msg) | Responds r \<Rightarrow> Inr r)"

text \<open>Modelled from the spec: \<^verbatim>\<open>raise_for_status\<close> is code of the \<^verbatim>\<open>httpx\<close> library; the
  spec counts a non-2xx status among the transport-level failures.\<close>

definition raise_for_status :: "response \<Rightarrow> exn + response" where
  "raise_for_status r =
     (if 200 \<le> status_code r \<and> status_code r < 300 then Inr r
      else Inl (HTTPStatusError (status_code r)))"

definition response_json :: "response \<Rightarrow> exn + json" where
  "response_json r = (case json_body r of None \<Rightarrow> Inl JSONDecodeError | Some v \<Rightarrow> Inr v)"

text \<open>\<^verbatim>\<open>except httpx.HTTPError\<close> catches the transport errors and the status errors, and
  nothing else.\<close>

definition is_HTTPError :: "exn \<Rightarrow> bool" where
  "is_HTTPError e = (case e of TransportError msg \<Rightarrow> True | HTTPStatusError code \<Rightarrow> True | _ \<Rightarrow> False)"

definition and_then :: "exn + 'a \<Rightarrow> ('a \<Rightarrow> exn + 'b) \<Rightarrow> exn + 'b" where
  "and_then m f = (case m of Inl e \<Rightarrow> Inl e | Inr x \<Rightarrow> f x)"

text \<open>Python's truth value of a JSON value, as \<^verbatim>\<open>not x\<close> reads it.\<close>

definition truthy :: "json \<Rightarrow> bool" where
  "truthy x =
     (case x of
        JNull \<Rightarrow> False
      | JBool b \<Rightarrow> b
      | JInt n \<Rightarrow> n \<noteq> 0
      | JFloat r \<Rightarrow> r \<noteq> 0
      | JStr s \<Rightarrow> s \<noteq> []
      | JList xs \<Rightarrow> xs \<noteq> []
      | JObj d \<Rightarrow> d \<noteq> [])"

section \<open>The job submitter\<close>

definition queue_prompt :: "http_outcome \<Rightarrow> exn + json" where
  "queue_prompt post_prompt =
     (case and_then (and_then (and_then (send_request post_prompt) raise_for_status) response_json)
             (\<lambda>result. and_then (py_get result ''prompt_id'' JNull)
                (\<lambda>prompt_id. if \<not> truthy prompt_id then Inl (HTTPException 500 NoPromptId)
                              else Inr prompt_id)) of
        Inl e \<Rightarrow> if is_HTTPError e then Inl (HTTPException 503 (FailedToConnect e)) else Inl e
      | Inr prompt_id \<Rightarrow> Inr prompt_id)"

section \<open>The result fetcher\<close>

definition get_history :: "http_outcome \<Rightarrow> exn + json" where
  "get_history get_history_response =
     (case and_then (and_then (send_request get_history_response) raise_for_status) response_json of
        Inl e \<Rightarrow> if is_HTTPError e then Inl (HTTPException 500 (FailedToGetHistory e)) else Inl e
      | Inr history \<Rightarrow> Inr history)"

text \<open>
  The operations of lines 192 to 200 on whatever JSON the history holds:
  \<^verbatim>\<open>k in x\<close>, \<^verbatim>\<open>x[k]\<close> for a string \<open>k\<close>, \<^verbatim>\<open>x.items()\<close>, \<^verbatim>\<open>len(x)\<close> and \<^verbatim>\<open>x[0]\<close>.
  A string's first character is its first list element here.
\<close>

definition py_in :: "string \<Rightarrow> json \<Rightarrow> exn + bool" where
  "py_in k x =
     (case x of
        JObj d \<Rightarrow> Inr (map_of d k \<noteq> None)
      | JList xs \<Rightarrow> Inr (JStr k \<in> set xs)
      | JStr s \<Rightarrow> Inr (str_contains s k)
      | _ \<Rightarrow> Inl TypeError)"

definition py_getitem :: "json \<Rightarrow> string \<Rightarrow> exn + json" where
  "py_getitem x k =
     (case x of
        JObj d \<Rightarrow> (case map_of d k of None \<Rightarrow> Inl KeyError | Some v \<Rightarrow> Inr v)
      | _ \<Rightarrow> Inl TypeError)"

definition py_items :: "json \<Rightarrow> exn + dict" where
  "py_items x = (case x of JObj d \<Rightarrow> Inr d | _ \<Rightarrow> Inl AttributeError)"

definition py_len :: "json \<Rightarrow> exn + nat" where
  "py_len x =
     (case x of
        JStr s \<Rightarrow> Inr (length s)
      | JList xs \<Rightarrow> Inr (length xs)
      | JObj d \<Rightarrow> Inr (length d)
      | _ \<Rightarrow> Inl TypeError)"

definition py_first :: "json \<Rightarrow> exn + json" where
  "py_first x =
     (case x of
        JStr s \<Rightarrow> (case s of [] \<Rightarrow> Inl IndexError | c # cs \<Rightarrow> Inr (JStr [c]))
      | JList xs \<Rightarrow> (case xs of [] \<Rightarrow> Inl IndexError | v # vs \<Rightarrow> Inr v)
      | JObj d \<Rightarrow> Inl KeyError
      | _ \<Rightarrow> Inl TypeError)"

text \<open>The scan of lines 197 to 201; \<open>JNull\<close> is the \<^verbatim>\<open>None\<close> that \<^verbatim>\<open>image_info\<close> starts
  with and keeps when no output qualifies.\<close>

fun find_image :: "dict \<Rightarrow> exn + json" where
  "find_image [] = Inr JNull"
| "find_image ((node_id, node_output) # rest) =
     (case py_in ''images'' node_output of
        Inl e \<Rightarrow> Inl e
      | Inr False \<Rightarrow> find_image rest
      | Inr True \<Rightarrow>
          (case and_then (py_getitem node_output ''images'') py_len of
             Inl e \<Rightarrow> Inl e
           | Inr n \<Rightarrow>
               if n > 0 then and_then (py_getitem node_output ''images'') py_first
               else find_image rest))"

text \<open>Lines 192 to 204: from the history to the first image reference.\<close>

definition locate_image :: "json \<Rightarrow> string \<Rightarrow> exn + json" where
  "locate_image history prompt_id =
     and_then (py_in prompt_id history)
       (\<lambda>present.
          if \<not> present then Inl (HTTPException 404 PromptIdNotInHistory)
          else and_then (py_getitem history prompt_id)
            (\<lambda>entry. and_then (py_get entry ''outputs'' (JObj []))
               (\<lambda>outputs. and_then (py_items outputs)
                  (\<lambda>items. and_then (find_image items)
                     (\<lambda>image_info.
                        if \<not> truthy image_info then Inl (HTTPException 404 NoOutputImages)
                        else Inr image_info)))))"

text \<open>Lines 206 to 217: the parameters of the download request.\<close>

record view_params =
  filename :: json
  subfolder :: json
  folder_type :: json

definition image_params :: "json \<Rightarrow> exn + view_params" where
  "image_params image_info =
     and_then (py_get image_info ''filename'' JNull)
       (\<lambda>fname. and_then (py_get image_info ''subfolder'' (JStr ''''))
          (\<lambda>sub. and_then (py_get image_info ''type'' (JStr ''output''))
             (\<lambda>ftype.
                if \<not> truthy fname then Inl (HTTPException 500 NoFilename)
                else Inr \<lparr>filename = fname, subfolder = sub, folder_type = ftype\<rparr>)))"

text \<open>
  The environment of one fetch: the answers of the history and the view endpoints, what
  the path library makes of a directory and a name, which paths can be opened for
  writing, and how an f-string renders a value that is not a string.
  \<open>path_of env output_dir name\<close> is \<^verbatim>\<open>str(Path(output_dir) / name)\<close>: joining and
  rendering are code of \<^verbatim>\<open>pathlib\<close> and differ between platforms, so they are a parameter.
  The files are a map from paths to their bytes.
\<close>

record fetch_env =
  history_response :: "string \<Rightarrow> http_outcome"
  view_response :: "view_params \<Rightarrow> http_outcome"
  path_of :: "string \<Rightarrow> string \<Rightarrow> string"
  can_open :: "string \<Rightarrow> bool"
  str_of :: "json \<Rightarrow> string"

definition format_value :: "fetch_env \<Rightarrow> json \<Rightarrow> string" where
  "format_value env v = (case v of JStr s \<Rightarrow> s | _ \<Rightarrow> str_of env v)"

definition open_wb :: "fetch_env \<Rightarrow> string \<Rightarrow> exn + string" where
  "open_wb env p = (if can_open env p then Inr p else Inl OSError)"

text \<open>Lines 219 to 236: the download and the write. The result comes with the files as
  the call leaves them.\<close>

definition save_image ::
  "fetch_env \<Rightarrow> (string \<rightharpoonup> string) \<Rightarrow> string \<Rightarrow> string \<Rightarrow> view_params \<Rightarrow>
     (exn + string) \<times> (string \<rightharpoonup> string)" where
  "save_image env files prompt_id output_dir params =
     (case and_then (send_request (view_response env params)) raise_for_status of
        Inl e \<Rightarrow>
          (if is_HTTPError e then Inl (HTTPException 500 (FailedToDownload e)) else Inl e, files)
      | Inr r \<Rightarrow>
          (let output_path =
                 path_of env output_dir (prompt_id @ ''_'' @ format_value env (filename params)) in
           case open_wb env output_path of
             Inl e \<Rightarrow> (if is_HTTPError e then Inl (HTTPException 500 (FailedToDownload e)) else Inl e, files)
           | Inr f \<Rightarrow> (Inr output_path, files(f \<mapsto> content r))))"

definition download_image ::
  "fetch_env \<Rightarrow> (string \<rightharpoonup> string) \<Rightarrow> string \<Rightarrow> string \<Rightarrow>
     (exn + string) \<times> (string \<rightharpoonup> string)" where
  "download_image env files prompt_id output_dir =
     (case and_then (and_then (get_history (history_response env prompt_id))
                       (\<lambda>history. locate_image history prompt_id)) image_params of
        Inl e \<Rightarrow> (Inl e, files)
      | Inr params \<Rightarrow> save_image env files prompt_id output_dir params)"

section \<open>Vocabulary of the properties\<close>

text \<open>A node's type tag, its \<^verbatim>\<open>inputs\<close> entry, and one of its inputs.\<close>

definition node_class :: "json \<Rightarrow> string \<Rightarrow> bool" where
  "node_class n c =
     (case n of JObj d \<Rightarrow> dict_get d ''class_type'' (JStr '''') = JStr c | _ \<Rightarrow> False)"

definition node_inputs :: "json \<Rightarrow> json option" where
  "node_inputs n = (case n of JObj d \<Rightarrow> map_of d ''inputs'' | _ \<Rightarrow> None)"

definition node_input :: "json \<Rightarrow> string \<Rightarrow> json option" where
  "node_input n k = (case node_inputs n of Some (JObj i) \<Rightarrow> map_of i k | _ \<Rightarrow> None)"

text \<open>The prompt that a slot with placeholder \<open>t\<close> is to receive.\<close>

definition slot_prompt :: "string \<Rightarrow> string \<Rightarrow> string \<Rightarrow> string" where
  "slot_prompt positive_prompt negative_prompt t =
     (if str_contains (lower t) ''negative'' \<or> str_contains (lower t) ''bad''
      then negative_prompt else positive_prompt)"

text \<open>The node \<open>n\<close> with its input \<open>k\<close> set to \<open>v\<close>, when it has a dictionary of inputs.\<close>

definition set_node_input :: "json \<Rightarrow> string \<Rightarrow> json \<Rightarrow> json" where
  "set_node_input n k v =
     (case n of
        JObj d \<Rightarrow>
          (case map_of d ''inputs'' of
             Some (JObj i) \<Rightarrow> JObj (dict_set d ''inputs'' (JObj (dict_set i k v)))
           | _ \<Rightarrow> n)
      | _ \<Rightarrow> n)"

text \<open>
  Two nodes differ at most in the input \<open>k\<close>: they have the same field names in the
  same order, the same fields other than \<^verbatim>\<open>inputs\<close>, and inputs that are equal once
  \<open>k\<close> is left out of both.
\<close>

definition fields_except :: "string \<Rightarrow> json \<Rightarrow> json" where
  "fields_except f n = (case n of JObj d \<Rightarrow> JObj (AList.delete f d) | _ \<Rightarrow> n)"

definition field_names :: "json \<Rightarrow> string list" where
  "field_names n = (case n of JObj d \<Rightarrow> map fst d | _ \<Rightarrow> [])"

definition only_input_differs :: "string \<Rightarrow> json \<Rightarrow> json \<Rightarrow> bool" where
  "only_input_differs k n n' =
     (field_names n' = field_names n \<and>
      fields_except ''inputs'' n' = fields_except ''inputs'' n \<and>
      map_option (fields_except k) (node_inputs n') = map_option (fields_except k) (node_inputs n))"

text \<open>A node on which the mutator does not raise: the \<^verbatim>\<open>inputs\<close> of a text-encoding or
  sampler node, when present, is a dictionary, and the \<^verbatim>\<open>text\<close> of a text-encoding
  node, when present, is a string.\<close>

definition node_ok :: "json \<Rightarrow> bool" where
  "node_ok n =
     (if node_class n ''CLIPTextEncode'' then
        (case node_inputs n of
           None \<Rightarrow> True
         | Some (JObj i) \<Rightarrow> (case dict_get i ''text'' (JStr '''') of JStr t \<Rightarrow> True | _ \<Rightarrow> False)
         | Some _ \<Rightarrow> False)
      else if node_class n ''KSampler'' then
        (case node_inputs n of None \<Rightarrow> True | Some (JObj i) \<Rightarrow> True | Some _ \<Rightarrow> False)
      else True)"

text \<open>
  The events of the watcher's protocol, for the job \<open>prompt_id\<close>. An event is a JSON
  object; its payload is the value under \<^verbatim>\<open>data\<close>, the empty object when there is none.
  A terminating event is an \<^verbatim>\<open>executing\<close> event of the job with no current node, or an
  \<^verbatim>\<open>execution_error\<close> event of the job. An event is well formed when its payload is an
  object, which matters for the two tags that the watcher reads the payload of.
\<close>

definition event_tag :: "dict \<Rightarrow> json option" where
  "event_tag event = map_of event ''type''"

definition event_payload :: "dict \<Rightarrow> json" where
  "event_payload event = dict_get event ''data'' (JObj [])"

definition names_job :: "json \<Rightarrow> string \<Rightarrow> bool" where
  "names_job payload prompt_id =
     (case payload of JObj p \<Rightarrow> map_of p ''prompt_id'' = Some (JStr prompt_id) | _ \<Rightarrow> False)"

definition no_current_node :: "json \<Rightarrow> bool" where
  "no_current_node payload =
     (case payload of
        JObj p \<Rightarrow> map_of p ''node'' = None \<or> map_of p ''node'' = Some JNull
      | _ \<Rightarrow> False)"

definition is_object :: "json \<Rightarrow> bool" where
  "is_object x = (case x of JObj d \<Rightarrow> True | _ \<Rightarrow> False)"

definition terminating :: "string \<Rightarrow> dict \<Rightarrow> bool" where
  "terminating prompt_id event =
     (names_job (event_payload event) prompt_id \<and>
      (event_tag event = Some (JStr ''executing'') \<and> no_current_node (event_payload event) \<or>
       event_tag event = Some (JStr ''execution_error'')))"

definition well_formed_event :: "dict \<Rightarrow> bool" where
  "well_formed_event event =
     (if event_tag event = Some (JStr ''executing'') \<or>
         event_tag event = Some (JStr ''execution_error'')
      then is_object (event_payload event) else True)"

text \<open>A receive that leaves the watch going: the per-receive timeout, or a well-formed
  event that is not terminating.\<close>

definition benign :: "string \<Rightarrow> recv_outcome \<Rightarrow> bool" where
  "benign prompt_id r =
     (case r of
        RecvTimeout \<Rightarrow> True
      | RecvMessage m \<Rightarrow>
          (case m of
             ValidJson data \<Rightarrow>
               (case data of
                  JObj event \<Rightarrow> well_formed_event event \<and> \<not> terminating prompt_id event
                | _ \<Rightarrow> False)
           | InvalidJson \<Rightarrow> False)
      | RecvClosed \<Rightarrow> False)"





definition transport_failure :: "http_outcome \<Rightarrow> bool" where
  "transport_failure outcome =
     (case outcome of
        RequestFails msg \<Rightarrow> True
      | Responds r \<Rightarrow> \<not> (200 \<le> status_code r \<and> status_code r < 300))"

definition failure_of :: "http_outcome \<Rightarrow> exn" where
  "failure_of outcome =
     (case outcome of
        RequestFails msg \<Rightarrow> TransportError msg
      | Responds r \<Rightarrow> HTTPStatusError (status_code r))"

section \<open>Example workflows\<close>

text \<open>Two sources of UUIDs and the templates on which the properties are tried: one
  that follows the convention of the placeholders, one whose text comes from another
  node, one whose nodes have no inputs.\<close>

definition zero_uuid4 :: "nat \<Rightarrow> int" where
  "zero_uuid4 k = 0"

definition counting_uuid4 :: "nat \<Rightarrow> int" where
  "counting_uuid4 k = 2 ^ 32 + 7 + int k"

definition template_two_slots :: dict where
  "template_two_slots =
     [(''7'', JObj [(''class_type'', JStr ''CLIPTextEncode''),
                    (''inputs'', JObj [(''text'', JStr ''BAD hands, blurry''),
                                       (''clip'', JList [JStr ''4'', JInt 1])])]),
      (''6'', JObj [(''class_type'', JStr ''CLIPTextEncode''),
                    (''inputs'', JObj [(''text'', JStr ''a photo of a cat''),
                                       (''clip'', JList [JStr ''4'', JInt 1])])]),
      (''3'', JObj [(''class_type'', JStr ''KSampler''),
                    (''inputs'', JObj [(''seed'', JInt 5), (''steps'', JInt 20)])]),
      (''4'', JObj [(''class_type'', JStr ''CheckpointLoaderSimple''),
                    (''inputs'', JObj [(''ckpt_name'', JStr ''model.safetensors'')])])]"

definition template_linked_text :: dict where
  "template_linked_text =
     [(''6'', JObj [(''class_type'', JStr ''CLIPTextEncode''),
                    (''inputs'', JObj [(''text'', JList [JStr ''12'', JInt 0]),
                                       (''clip'', JList [JStr ''4'', JInt 1])])])]"

definition template_no_inputs :: dict where
  "template_no_inputs =
     [(''6'', JObj [(''class_type'', JStr ''CLIPTextEncode'')]),
      (''3'', JObj [(''class_type'', JStr ''KSampler'')])]"

definition template_text_from_node :: dict where
  "template_text_from_node =
     [(''6'', JObj [(''class_type'', JStr ''CLIPTextEncode''),
                    (''inputs'', JObj [(''text'', JStr ''a photo of a cat''),
                                       (''clip'', JList [JStr ''4'', JInt 1])])]),
      (''7'', JObj [(''class_type'', JStr ''CLIPTextEncode''),
                    (''inputs'', JObj [(''text'', JList [JStr ''12'', JInt 0]),
                                       (''clip'', JList [JStr ''4'', JInt 1])])]),
      (''12'', JObj [(''class_type'', JStr ''PrimitiveString''),
                     (''inputs'', JObj [(''value'', JStr ''blurry'')])])]"

section \<open>Example watches\<close>

definition rounds :: "'a list \<Rightarrow> 'a \<Rightarrow> nat \<Rightarrow> 'a" where
  "rounds xs dflt i = (if i < length xs then xs ! i else dflt)"

definition status_event :: dict where
  "status_event =
     [(''type'', JStr ''status''),
      (''data'', JObj [(''status'', JObj [(''exec_info'', JObj [(''queue_remaining'', JInt 1)])])])]"

definition progress_event :: dict where
  "progress_event =
     [(''type'', JStr ''executing''),
      (''data'', JObj [(''node'', JStr ''5''), (''prompt_id'', JStr ''job-1'')])]"

definition done_event :: dict where
  "done_event =
     [(''type'', JStr ''executing''),
      (''data'', JObj [(''node'', JNull), (''prompt_id'', JStr ''job-1'')])]"

definition other_job_error :: dict where
  "other_job_error =
     [(''type'', JStr ''execution_error''),
      (''data'', JObj [(''prompt_id'', JStr ''job-2''), (''exception_message'', JStr ''out of memory'')])]"

definition own_job_error :: dict where
  "own_job_error =
     [(''type'', JStr ''execution_error''),
      (''data'', JObj [(''prompt_id'', JStr ''job-1''), (''exception_message'', JStr ''out of memory'')])]"

definition event_received :: "dict \<Rightarrow> recv_outcome" where
  "event_received event = RecvMessage (ValidJson (JObj event))"

text \<open>A watch that sees other traffic, then the end of its job; one that sees its job
  fail; one that is kept busy past the deadline.\<close>

definition watch_completes :: watch_env where
  "watch_completes =
     \<lparr>connect_error = None,
      clock = (\<lambda>i. 2 * real i),
      recv = rounds [event_received status_event, event_received progress_event,
                     event_received other_job_error, event_received done_event] RecvTimeout\<rparr>"

definition watch_fails :: watch_env where
  "watch_fails =
     \<lparr>connect_error = None,
      clock = (\<lambda>i. 2 * real i),
      recv = rounds [event_received own_job_error] RecvTimeout\<rparr>"

definition watch_kept_busy :: watch_env where
  "watch_kept_busy =
     \<lparr>connect_error = None,
      clock = (\<lambda>i. 100 * real i),
      recv = rounds [RecvTimeout, event_received progress_event,
                     event_received other_job_error] (event_received done_event)\<rparr>"

definition watch_connection_drops :: watch_env where
  "watch_connection_drops =
     \<lparr>connect_error = None, clock = (\<lambda>i. 2 * real i), recv = rounds [RecvTimeout] RecvClosed\<rparr>"

definition watch_gets_preview :: watch_env where
  "watch_gets_preview =
     \<lparr>connect_error = None,
      clock = (\<lambda>i. 2 * real i),
      recv = rounds [event_received progress_event, RecvMessage InvalidJson]
               (event_received done_event)\<rparr>"

section \<open>Example fetches\<close>

text \<open>
  A path library for the examples, which joins and renders as \<^verbatim>\<open>pathlib\<close> does on a POSIX
  system: a name that begins with a slash replaces the directory, the joined text is
  cut at the slashes, empty components and single dots are dropped, and the rest is
  put together again behind the root.
\<close>

fun split_slash :: "string \<Rightarrow> string list" where
  "split_slash [] = [[]]"
| "split_slash (c # cs) =
     (if c = CHR ''/'' then [] # split_slash cs
      else (case split_slash cs of [] \<Rightarrow> [[c]] | p # ps \<Rightarrow> (c # p) # ps))"

fun join_slash :: "string list \<Rightarrow> string" where
  "join_slash [] = []"
| "join_slash [p] = p"
| "join_slash (p # q # ps) = p @ ''/'' @ join_slash (q # ps)"

definition posix_root :: "string \<Rightarrow> string" where
  "posix_root s =
     (if take 2 s = ''//'' \<and> take 3 s \<noteq> ''///'' then ''//''
      else if take 1 s = ''/'' then ''/'' else [])"

definition posix_join :: "string \<Rightarrow> string \<Rightarrow> string" where
  "posix_join a b =
     (if take 1 b = ''/'' then b
      else if a = [] \<or> last a = CHR ''/'' then a @ b else a @ ''/'' @ b)"

definition posix_path :: "string \<Rightarrow> string \<Rightarrow> string" where
  "posix_path output_dir name =
     (let s = posix_join output_dir name;
          parts = filter (\<lambda>p. p \<noteq> [] \<and> p \<noteq> ''.'') (split_slash s)
      in if posix_root s = [] \<and> parts = [] then ''.'' else posix_root s @ join_slash parts)"

text \<open>A history of five jobs, served one job at a time, and four states of the remote
  service and of the disk.\<close>

definition recorded_jobs :: dict where
  "recorded_jobs =
     [(''job-1'', JObj [(''outputs'',
         JObj [(''8'', JObj [(''text'', JList [JStr ''done''])]),
               (''9'', JObj [(''images'',
                  JList [JObj [(''filename'', JStr ''fox.png''), (''subfolder'', JStr ''''),
                               (''type'', JStr ''output'')]])])])]),
      (''job-2'', JObj [(''outputs'', JObj [])]),
      (''job-3'', JObj [(''outputs'',
         JObj [(''9'', JObj [(''images'',
                  JList [JObj [(''subfolder'', JStr ''''), (''type'', JStr ''output'')]])])])]),
      (''job-4'', JObj [(''outputs'', JObj [(''9'', JObj [(''images'', JList [JObj []])])])]),
      (''job-5'', JObj [(''outputs'',
         JObj [(''9'', JObj [(''images'',
                  JList [JObj [(''filename'', JStr ''a//b.png''), (''subfolder'', JStr ''''),
                               (''type'', JStr ''output'')]])])])])]"

definition history_of :: "string \<Rightarrow> json" where
  "history_of prompt_id =
     (case map_of recorded_jobs prompt_id of
        None \<Rightarrow> JObj []
      | Some entry \<Rightarrow> JObj [(prompt_id, entry)])"



definition view_down :: fetch_env where
  "view_down =
     \<lparr>history_response =
        (\<lambda>prompt_id. Responds \<lparr>status_code = 200, content = [], json_body = Some (history_of prompt_id)\<rparr>),
      view_response = (\<lambda>params. RequestFails ''connection refused''),
      path_of = posix_path,
      can_open = (\<lambda>p. True),
      str_of = (\<lambda>v. ''?'')\<rparr>"

definition history_down :: fetch_env where
  "history_down =
     \<lparr>history_response =
        (\<lambda>prompt_id. Responds \<lparr>status_code = 502, content = ''Bad Gateway'', json_body = None\<rparr>),
      view_response = (\<lambda>params. RequestFails ''connection refused''),
      path_of = posix_path,
      can_open = (\<lambda>p. True),
      str_of = (\<lambda>v. ''?'')\<rparr>"


section \<open>Properties of the workflow mutator\<close>

subsection \<open>One node\<close>

lemma node_classD:
  "node_class n c \<Longrightarrow> \<exists>d. n = JObj d \<and> dict_get d ''class_type'' (JStr '''') = JStr c"
  by (cases n) (simp_all add: node_class_def)

lemma modify_node_other:
  "\<not> node_class n ''CLIPTextEncode'' \<Longrightarrow> \<not> node_class n ''KSampler'' \<Longrightarrow>
   modify_node u p ng k n st = Inr (n, st)"
  by (cases n) (simp_all add: modify_node_def node_class_def Let_def)

lemma modify_node_clip_detached:
  assumes "node_class n ''CLIPTextEncode''" and "node_inputs n = None"
  shows "modify_node u p ng k n st = Inr (n, st\<lparr>modified := True, out := out st @ [SetPositive k]\<rparr>)"
proof -
  from assms(1) obtain d where n: "n = JObj d"
    and c: "dict_get d ''class_type'' (JStr '''') = JStr ''CLIPTextEncode''"
    by (auto dest: node_classD)
  from assms(2) n have i: "map_of d ''inputs'' = None" by (simp add: node_inputs_def)
  have g: "dict_get d ''inputs'' (JObj []) = JObj []" using i by (simp add: dict_get_def)
  have t: "py_get (JObj []) ''text'' (JStr '''') = Inr (JStr '''')"
    by (simp add: py_get_def dict_get_def)
  have s: "is_negative_slot (JStr '''') = Inr False"
    by (simp add: is_negative_slot_def lower_def)
  have a: "assign_input d ''text'' (JStr p) = Inr d" using i by (simp add: assign_input_def)
  show ?thesis unfolding n modify_node_def by (simp add: c g t s a)
qed

lemma modify_node_clip_str:
  assumes "node_class n ''CLIPTextEncode''" and "node_inputs n = Some (JObj i)"
    and "dict_get i ''text'' (JStr '''') = JStr t"
  shows "modify_node u p ng k n st =
     Inr (set_node_input n ''text'' (JStr (slot_prompt p ng t)),
          st\<lparr>modified := True,
             out := out st @ [if str_contains (lower t) ''negative'' \<or> str_contains (lower t) ''bad''
                              then SetNegative k else SetPositive k]\<rparr>)"
proof -
  from assms(1) obtain d where n: "n = JObj d"
    and c: "dict_get d ''class_type'' (JStr '''') = JStr ''CLIPTextEncode''"
    by (auto dest: node_classD)
  from assms(2) n have i: "map_of d ''inputs'' = Some (JObj i)" by (simp add: node_inputs_def)
  have g: "dict_get d ''inputs'' (JObj []) = JObj i" using i by (simp add: dict_get_def)
  have t: "py_get (JObj i) ''text'' (JStr '''') = Inr (JStr t)"
    using assms(3) by (simp add: py_get_def)
  have a: "assign_input d ''text'' v = Inr (dict_set d ''inputs'' (JObj (dict_set i ''text'' v)))" for v
    using i by (simp add: assign_input_def)
  have sn: "set_node_input n ''text'' v = JObj (dict_set d ''inputs'' (JObj (dict_set i ''text'' v)))" for v
    using i n by (simp add: set_node_input_def)
  show ?thesis
  proof (cases "str_contains (lower t) ''negative'' \<or> str_contains (lower t) ''bad''")
    case True
    then have s: "is_negative_slot (JStr t) = Inr True" by (simp add: is_negative_slot_def)
    have sp: "slot_prompt p ng t = ng" using True by (simp add: slot_prompt_def)
    show ?thesis unfolding modify_node_def sn sp unfolding n using True by (simp add: c g t s a)
  next
    case False
    then have s: "is_negative_slot (JStr t) = Inr False" by (simp add: is_negative_slot_def)
    have sp: "slot_prompt p ng t = p" using False by (simp add: slot_prompt_def)
    show ?thesis unfolding modify_node_def sn sp unfolding n using False by (simp add: c g t s a)
  qed
qed

lemma modify_node_clip_nonstr:
  assumes "node_class n ''CLIPTextEncode''" and "node_inputs n = Some (JObj i)"
    and "\<forall>t. dict_get i ''text'' (JStr '''') \<noteq> JStr t"
  shows "modify_node u p ng k n st = Inl AttributeError"
proof -
  from assms(1) obtain d where n: "n = JObj d"
    and c: "dict_get d ''class_type'' (JStr '''') = JStr ''CLIPTextEncode''"
    by (auto dest: node_classD)
  from assms(2) n have i: "map_of d ''inputs'' = Some (JObj i)" by (simp add: node_inputs_def)
  have g: "dict_get d ''inputs'' (JObj []) = JObj i" using i by (simp add: dict_get_def)
  have t: "py_get (JObj i) ''text'' (JStr '''') = Inr (dict_get i ''text'' (JStr ''''))"
    by (simp add: py_get_def)
  have s: "is_negative_slot (dict_get i ''text'' (JStr '''')) = Inl AttributeError"
    using assms(3) by (cases "dict_get i ''text'' (JStr '''')") (simp_all add: is_negative_slot_def)
  show ?thesis unfolding modify_node_def n by (simp add: c g t s)
qed

lemma modify_node_clip_noninputs:
  assumes "node_class n ''CLIPTextEncode''" and "node_inputs n = Some v" and "\<forall>i. v \<noteq> JObj i"
  shows "modify_node u p ng k n st = Inl AttributeError"
proof -
  from assms(1) obtain d where n: "n = JObj d"
    and c: "dict_get d ''class_type'' (JStr '''') = JStr ''CLIPTextEncode''"
    by (auto dest: node_classD)
  from assms(2) n have i: "map_of d ''inputs'' = Some v" by (simp add: node_inputs_def)
  have g: "dict_get d ''inputs'' (JObj []) = v" using i by (simp add: dict_get_def)
  have t: "py_get v ''text'' (JStr '''') = Inl AttributeError"
    using assms(3) by (cases v) (simp_all add: py_get_def)
  show ?thesis unfolding modify_node_def n by (simp add: c g t)
qed

lemma modify_node_sampler_detached:
  assumes "node_class n ''KSampler''" and "node_inputs n = None"
  shows "modify_node u p ng k n st =
     Inr (n, st\<lparr>modified := True, draws := Suc (draws st),
               out := out st @ [RandomizedSeed k (JInt (u (draws st) mod 2 ^ 32))]\<rparr>)"
proof -
  from assms(1) obtain d where n: "n = JObj d"
    and c: "dict_get d ''class_type'' (JStr '''') = JStr ''KSampler''"
    by (auto dest: node_classD)
  from assms(2) n have i: "map_of d ''inputs'' = None" by (simp add: node_inputs_def)
  have a: "assign_input d ''seed'' v = Inr d" for v using i by (simp add: assign_input_def)
  show ?thesis unfolding modify_node_def n by (simp add: c a Let_def)
qed

lemma modify_node_sampler_attached:
  assumes "node_class n ''KSampler''" and "node_inputs n = Some (JObj i)"
  shows "modify_node u p ng k n st =
     Inr (set_node_input n ''seed'' (JInt (u (draws st) mod 2 ^ 32)),
          st\<lparr>modified := True, draws := Suc (draws st),
             out := out st @ [RandomizedSeed k (JInt (u (draws st) mod 2 ^ 32))]\<rparr>)"
proof -
  from assms(1) obtain d where n: "n = JObj d"
    and c: "dict_get d ''class_type'' (JStr '''') = JStr ''KSampler''"
    by (auto dest: node_classD)
  from assms(2) n have i: "map_of d ''inputs'' = Some (JObj i)" by (simp add: node_inputs_def)
  have a: "assign_input d ''seed'' v = Inr (dict_set d ''inputs'' (JObj (dict_set i ''seed'' v)))" for v
    using i by (simp add: assign_input_def)
  have sn: "set_node_input n ''seed'' v = JObj (dict_set d ''inputs'' (JObj (dict_set i ''seed'' v)))" for v
    using i n by (simp add: set_node_input_def)
  show ?thesis unfolding modify_node_def sn unfolding n by (simp add: c a Let_def)
qed

lemma modify_node_sampler_noninputs:
  assumes "node_class n ''KSampler''" and "node_inputs n = Some v" and "\<forall>i. v \<noteq> JObj i"
  shows "modify_node u p ng k n st = Inl TypeError"
proof -
  from assms(1) obtain d where n: "n = JObj d"
    and c: "dict_get d ''class_type'' (JStr '''') = JStr ''KSampler''"
    by (auto dest: node_classD)
  from assms(2) n have i: "map_of d ''inputs'' = Some v" by (simp add: node_inputs_def)
  have a: "assign_input d ''seed'' x = Inl TypeError" for x
    using i assms(3) by (cases v) (simp_all add: assign_input_def)
  show ?thesis unfolding modify_node_def n by (simp add: c a Let_def)
qed

lemma modify_items_nth:
  "modify_items u p ng w st = Inr (w', st') \<Longrightarrow>
   length w' = length w \<and>
   (\<forall>j < length w. fst (w' ! j) = fst (w ! j) \<and>
      (\<exists>s s'. modify_node u p ng (fst (w ! j)) (snd (w ! j)) s = Inr (snd (w' ! j), s')))"
proof (induction w arbitrary: st w' st')
  case Nil
  then show ?case by simp
next
  case (Cons a w)
  obtain k n where a: "a = (k, n)" by (cases a)
  from Cons.prems a obtain n' s1 rest' where
    n: "modify_node u p ng k n st = Inr (n', s1)" and
    r: "modify_items u p ng w s1 = Inr (rest', st')" and
    weq: "w' = (k, n') # rest'"
    by (auto split: sum.splits prod.splits)
  from Cons.IH[OF r] have ih: "length rest' = length w"
    "\<forall>j < length w. fst (rest' ! j) = fst (w ! j) \<and>
      (\<exists>s s'. modify_node u p ng (fst (w ! j)) (snd (w ! j)) s = Inr (snd (rest' ! j), s'))"
    by simp_all
  show ?case
  proof (intro conjI allI impI)
    show "length w' = length (a # w)" using ih weq by simp
  next
    fix j assume "j < length (a # w)"
    then show "fst (w' ! j) = fst ((a # w) ! j)" using ih weq a by (cases j) auto
  next
    fix j assume j: "j < length (a # w)"
    show "\<exists>s s'. modify_node u p ng (fst ((a # w) ! j)) (snd ((a # w) ! j)) s = Inr (snd (w' ! j), s')"
    proof (cases j)
      case 0
      then show ?thesis using n weq a by auto
    next
      case (Suc m)
      then show ?thesis using ih j weq by auto
    qed
  qed
qed

lemma node_class_unique:
  "node_class n c \<Longrightarrow> node_class n c' \<Longrightarrow> c' = c"
  by (cases n) (simp_all add: node_class_def)

lemma modify_node_cases:
  assumes "modify_node u p ng k n st = Inr (n', st')"
  shows "(\<not> node_class n ''CLIPTextEncode'' \<and> \<not> node_class n ''KSampler'' \<and> n' = n \<and> st' = st) \<or>
     (node_class n ''CLIPTextEncode'' \<and> node_inputs n = None \<and> n' = n \<and>
        st' = st\<lparr>modified := True, out := out st @ [SetPositive k]\<rparr>) \<or>
     (node_class n ''CLIPTextEncode'' \<and>
        (\<exists>i t. node_inputs n = Some (JObj i) \<and> dict_get i ''text'' (JStr '''') = JStr t \<and>
           n' = set_node_input n ''text'' (JStr (slot_prompt p ng t)) \<and>
           st' = st\<lparr>modified := True,
                   out := out st @ [if str_contains (lower t) ''negative'' \<or> str_contains (lower t) ''bad''
                                    then SetNegative k else SetPositive k]\<rparr>)) \<or>
     (node_class n ''KSampler'' \<and> node_inputs n = None \<and> n' = n \<and>
        st' = st\<lparr>modified := True, draws := Suc (draws st),
                out := out st @ [RandomizedSeed k (JInt (u (draws st) mod 2 ^ 32))]\<rparr>) \<or>
     (node_class n ''KSampler'' \<and> (\<exists>i. node_inputs n = Some (JObj i)) \<and>
        n' = set_node_input n ''seed'' (JInt (u (draws st) mod 2 ^ 32)) \<and>
        st' = st\<lparr>modified := True, draws := Suc (draws st),
                out := out st @ [RandomizedSeed k (JInt (u (draws st) mod 2 ^ 32))]\<rparr>)"
proof (cases "node_class n ''CLIPTextEncode''")
  case clip: True
  show ?thesis
  proof (cases "node_inputs n")
    case None
    from modify_node_clip_detached[OF clip None, of u p ng k st] assms clip None
    show ?thesis by simp
  next
    case (Some v)
    show ?thesis
    proof (cases "\<exists>i. v = JObj i")
      case False
      with modify_node_clip_noninputs[OF clip Some, of u p ng k st] assms
      show ?thesis by simp
    next
      case True
      then obtain i where v: "v = JObj i" by blast
      show ?thesis
      proof (cases "\<exists>t. dict_get i ''text'' (JStr '''') = JStr t")
        case False
        with modify_node_clip_nonstr[OF clip Some[unfolded v], of u p ng k st] assms
        show ?thesis by simp
      next
        case True
        then obtain t where t: "dict_get i ''text'' (JStr '''') = JStr t" by blast
        from modify_node_clip_str[OF clip Some[unfolded v] t, of u p ng k st] assms
        have "n' = set_node_input n ''text'' (JStr (slot_prompt p ng t))"
          and "st' = st\<lparr>modified := True,
                   out := out st @ [if str_contains (lower t) ''negative'' \<or> str_contains (lower t) ''bad''
                                    then SetNegative k else SetPositive k]\<rparr>"
          by simp_all
        with clip Some v t show ?thesis by blast
      qed
    qed
  qed
next
  case noclip: False
  show ?thesis
  proof (cases "node_class n ''KSampler''")
    case False
    from modify_node_other[OF noclip False, of u p ng k st] assms noclip False
    show ?thesis by simp
  next
    case ks: True
    show ?thesis
    proof (cases "node_inputs n")
      case None
      from modify_node_sampler_detached[OF ks None, of u p ng k st] assms ks None
      show ?thesis by simp
    next
      case (Some v)
      show ?thesis
      proof (cases "\<exists>i. v = JObj i")
        case False
        with modify_node_sampler_noninputs[OF ks Some, of u p ng k st] assms
        show ?thesis by simp
      next
        case True
        then obtain i where v: "v = JObj i" by blast
        from modify_node_sampler_attached[OF ks Some[unfolded v], of u p ng k st] assms
        have "n' = set_node_input n ''seed'' (JInt (u (draws st) mod 2 ^ 32))"
          and "st' = st\<lparr>modified := True, draws := Suc (draws st),
                out := out st @ [RandomizedSeed k (JInt (u (draws st) mod 2 ^ 32))]\<rparr>"
          by simp_all
        with ks Some v show ?thesis by blast
      qed
    qed
  qed
qed

lemma only_input_differs_refl: "only_input_differs k n n"
  by (simp add: only_input_differs_def)

lemma only_input_differs_set: "only_input_differs k n (set_node_input n k v)"
proof (cases n)
  case (JObj d)
  show ?thesis
  proof (cases "map_of d ''inputs''")
    case None
    then show ?thesis using JObj by (simp add: set_node_input_def only_input_differs_def)
  next
    case (Some x)
    show ?thesis
    proof (cases x)
      case (JObj i)
      have key: "''inputs'' \<in> fst ` set d" using map_of_SomeD[OF Some] by force
      have s: "set_node_input n k v = json.JObj (dict_set d ''inputs'' (json.JObj (dict_set i k v)))"
        using \<open>n = json.JObj d\<close> Some JObj by (simp add: set_node_input_def)
      show ?thesis unfolding s using \<open>n = json.JObj d\<close> Some JObj key
        by (simp add: only_input_differs_def field_names_def fields_except_def node_inputs_def
            dict_set_def update_keys delete_update_same update_conv')
    qed (use \<open>n = JObj d\<close> Some in \<open>simp_all add: set_node_input_def only_input_differs_def\<close>)
  qed
qed (simp_all add: set_node_input_def only_input_differs_def)

lemma node_input_set:
  "node_inputs n = Some (JObj i) \<Longrightarrow> node_input (set_node_input n k v) k = Some v"
  by (cases n) (simp_all add: node_inputs_def node_input_def set_node_input_def dict_set_def update_conv')

subsection \<open>The whole graph\<close>

lemma modify_node_state:
  assumes "modify_node u p ng k n st = Inr (n', st')"
  shows "modified st' = (modified st \<or> node_class n ''CLIPTextEncode'' \<or> node_class n ''KSampler'')"
    and "WarningNoNodes \<in> set (out st') \<Longrightarrow> WarningNoNodes \<in> set (out st)"
    and "RandomizedSeed a v \<in> set (out st') \<Longrightarrow>
           RandomizedSeed a v \<in> set (out st) \<or> (\<exists>c. v = JInt (u c mod 2 ^ 32))"
  using modify_node_cases[OF assms]
  by (auto split: if_splits)

lemma modify_items_state:
  "modify_items u p ng w st = Inr (w', st') \<Longrightarrow>
   (modified st' =
      (modified st \<or> (\<exists>x \<in> set w. node_class (snd x) ''CLIPTextEncode'' \<or> node_class (snd x) ''KSampler''))) \<and>
   (WarningNoNodes \<in> set (out st') \<longrightarrow> WarningNoNodes \<in> set (out st)) \<and>
   (\<forall>a v. RandomizedSeed a v \<in> set (out st') \<longrightarrow>
      RandomizedSeed a v \<in> set (out st) \<or> (\<exists>c. v = JInt (u c mod 2 ^ 32)))"
proof (induction w arbitrary: st w' st')
  case Nil
  then show ?case by simp
next
  case (Cons x w)
  obtain k n where x: "x = (k, n)" by (cases x)
  from Cons.prems x obtain n' s1 rest' where
    n: "modify_node u p ng k n st = Inr (n', s1)" and
    r: "modify_items u p ng w s1 = Inr (rest', st')"
    by (auto split: sum.splits prod.splits)
  note ih = Cons.IH[OF r]
  note st = modify_node_state[OF n]
  show ?case
  proof (intro conjI allI impI)
    show "modified st' =
      (modified st \<or> (\<exists>y \<in> set (x # w). node_class (snd y) ''CLIPTextEncode'' \<or> node_class (snd y) ''KSampler''))"
      using ih st(1) x by auto
  next
    assume "WarningNoNodes \<in> set (out st')"
    then show "WarningNoNodes \<in> set (out st)" using ih st(2) by blast
  next
    fix a v assume "RandomizedSeed a v \<in> set (out st')"
    then have "RandomizedSeed a v \<in> set (out s1) \<or> (\<exists>c. v = JInt (u c mod 2 ^ 32))"
      using ih by blast
    then show "RandomizedSeed a v \<in> set (out st) \<or> (\<exists>c. v = JInt (u c mod 2 ^ 32))"
      using st(3) by blast
  qed
qed

lemma modify_node_total:
  assumes "node_ok n"
  shows "\<exists>n' st'. modify_node u p ng k n st = Inr (n', st')"
proof (cases "node_class n ''CLIPTextEncode''")
  case clip: True
  show ?thesis
  proof (cases "node_inputs n")
    case None
    with modify_node_clip_detached[OF clip] show ?thesis by blast
  next
    case (Some v)
    with assms clip obtain i t where "v = JObj i" "dict_get i ''text'' (JStr '''') = JStr t"
      by (auto simp: node_ok_def split: json.splits)
    with modify_node_clip_str[OF clip] Some show ?thesis by blast
  qed
next
  case noclip: False
  show ?thesis
  proof (cases "node_class n ''KSampler''")
    case False
    with modify_node_other[OF noclip] show ?thesis by blast
  next
    case ks: True
    show ?thesis
    proof (cases "node_inputs n")
      case None
      with modify_node_sampler_detached[OF ks] show ?thesis by blast
    next
      case (Some v)
      with assms noclip ks obtain i where "v = JObj i"
        by (auto simp: node_ok_def split: json.splits)
      with modify_node_sampler_attached[OF ks] Some show ?thesis by blast
    qed
  qed
qed

lemma modify_items_total:
  "list_all (\<lambda>x. node_ok (snd x)) w \<Longrightarrow> \<exists>w' st'. modify_items u p ng w st = Inr (w', st')"
proof (induction w arbitrary: st)
  case Nil
  then show ?case by simp
next
  case (Cons x w)
  obtain k n where x: "x = (k, n)" by (cases x)
  from Cons.prems x have "node_ok n" by simp
  from modify_node_total[OF this] obtain n' s1 where
    n: "modify_node u p ng k n st = Inr (n', s1)" by blast
  from Cons.prems have "list_all (\<lambda>x. node_ok (snd x)) w" by simp
  from Cons.IH[OF this] obtain rest' st' where
    r: "modify_items u p ng w s1 = Inr (rest', st')" by blast
  show ?case using n r x by simp
qed

lemma modify_workflow_Inr:
  assumes "modify_workflow u w p ng = Inr r"
  obtains st' where "modify_items u p ng w \<lparr>modified = False, draws = 0, out = []\<rparr> = Inr (graph r, st')"
    and "printed_lines r = (if \<not> modified st' then out st' @ [WarningNoNodes] else out st')"
  using assms unfolding modify_workflow_def
  by (auto split: sum.splits prod.splits)

lemmas mutator_defs =
  modify_workflow_def modify_node_def dict_get_def dict_set_def py_get_def
  is_negative_slot_def assign_input_def lower_def lower_char_def char_of_def bit_0 Let_def

lemma eval_two_slots:
  "modify_workflow counting_uuid4 template_two_slots ''A'' ''B'' =
     Inr \<lparr>graph =
       [(''7'', JObj [(''class_type'', JStr ''CLIPTextEncode''),
                    (''inputs'', JObj [(''text'', JStr ''B''),
                                       (''clip'', JList [JStr ''4'', JInt 1])])]),
      (''6'', JObj [(''class_type'', JStr ''CLIPTextEncode''),
                    (''inputs'', JObj [(''text'', JStr ''A''),
                                       (''clip'', JList [JStr ''4'', JInt 1])])]),
      (''3'', JObj [(''class_type'', JStr ''KSampler''),
                    (''inputs'', JObj [(''seed'', JInt 7), (''steps'', JInt 20)])]),
      (''4'', JObj [(''class_type'', JStr ''CheckpointLoaderSimple''),
                    (''inputs'', JObj [(''ckpt_name'', JStr ''model.safetensors'')])])],
      printed_lines = [SetNegative ''7'', SetPositive ''6'', RandomizedSeed ''3'' (JInt 7)]\<rparr>"
  by (simp add: template_two_slots_def counting_uuid4_def mutator_defs)

text \<open>
  Claim C4. Whenever the mutator returns a graph, that graph has the node identifiers of
  the loaded graph, in the same order; a text-encoding node differs from the loaded one
  at most in its \<^verbatim>\<open>text\<close> input, a sampler node at most in its \<^verbatim>\<open>seed\<close> input, and every
  other node is the loaded node.
\<close>

theorem mutation_frame:
  assumes "modify_workflow uuid4 w positive_prompt negative_prompt = Inr r"
  shows "map fst (graph r) = map fst w \<and>
     (\<forall>j < length w.
        if node_class (snd (w ! j)) ''CLIPTextEncode''
        then only_input_differs ''text'' (snd (w ! j)) (snd (graph r ! j))
        else if node_class (snd (w ! j)) ''KSampler''
        then only_input_differs ''seed'' (snd (w ! j)) (snd (graph r ! j))
        else snd (graph r ! j) = snd (w ! j))"
proof -
  from assms obtain st' where
    it: "modify_items uuid4 positive_prompt negative_prompt w \<lparr>modified = False, draws = 0, out = []\<rparr>
           = Inr (graph r, st')"
    by (rule modify_workflow_Inr)
  note nth = modify_items_nth[OF it]
  have len: "length (graph r) = length w" using nth by simp
  have keys: "map fst (graph r) = map fst w"
    using nth by (intro nth_equalityI) simp_all
  have nodes: "if node_class (snd (w ! j)) ''CLIPTextEncode''
        then only_input_differs ''text'' (snd (w ! j)) (snd (graph r ! j))
        else if node_class (snd (w ! j)) ''KSampler''
        then only_input_differs ''seed'' (snd (w ! j)) (snd (graph r ! j))
        else snd (graph r ! j) = snd (w ! j)" if j: "j < length w" for j
  proof -
    from nth j obtain s s' where
      "modify_node uuid4 positive_prompt negative_prompt (fst (w ! j)) (snd (w ! j)) s
         = Inr (snd (graph r ! j), s')" by blast
    from modify_node_cases[OF this] show ?thesis
      by (auto simp: only_input_differs_refl only_input_differs_set dest: node_class_unique)
  qed
  show ?thesis using keys nodes by blast
qed

theorem mutation_frame_witness:
  "\<exists>r. modify_workflow counting_uuid4 template_two_slots ''A'' ''B'' = Inr r \<and>
     map fst (graph r) = [''7'', ''6'', ''3'', ''4''] \<and>
     only_input_differs ''text'' (snd (template_two_slots ! 0)) (snd (graph r ! 0)) \<and>
     only_input_differs ''text'' (snd (template_two_slots ! 1)) (snd (graph r ! 1)) \<and>
     only_input_differs ''seed'' (snd (template_two_slots ! 2)) (snd (graph r ! 2)) \<and>
     snd (graph r ! 3) = snd (template_two_slots ! 3)"
proof -
  obtain r where r: "modify_workflow counting_uuid4 template_two_slots ''A'' ''B'' = Inr r"
    using eval_two_slots by blast
  note f = mutation_frame[OF r]
  have c0: "node_class (snd (template_two_slots ! 0)) ''CLIPTextEncode''"
    and c1: "node_class (snd (template_two_slots ! 1)) ''CLIPTextEncode''"
    and c2: "\<not> node_class (snd (template_two_slots ! 2)) ''CLIPTextEncode''"
            "node_class (snd (template_two_slots ! 2)) ''KSampler''"
    and c3: "\<not> node_class (snd (template_two_slots ! 3)) ''CLIPTextEncode''"
            "\<not> node_class (snd (template_two_slots ! 3)) ''KSampler''"
    and len: "length template_two_slots = 4"
    and keys: "map fst template_two_slots = [''7'', ''6'', ''3'', ''4'']"
    by (simp_all add: template_two_slots_def node_class_def dict_get_def)
  from f have k: "map fst (graph r) = [''7'', ''6'', ''3'', ''4'']" using keys by simp
  from f have a: "\<And>j. j < 4 \<Longrightarrow>
        (if node_class (snd (template_two_slots ! j)) ''CLIPTextEncode''
        then only_input_differs ''text'' (snd (template_two_slots ! j)) (snd (graph r ! j))
        else if node_class (snd (template_two_slots ! j)) ''KSampler''
        then only_input_differs ''seed'' (snd (template_two_slots ! j)) (snd (graph r ! j))
        else snd (graph r ! j) = snd (template_two_slots ! j))"
    using len by simp
  from a[of 0] c0 have n0: "only_input_differs ''text'' (snd (template_two_slots ! 0)) (snd (graph r ! 0))" by simp
  from a[of 1] c1 have n1: "only_input_differs ''text'' (snd (template_two_slots ! 1)) (snd (graph r ! 1))" by simp
  from a[of 2] c2 have n2: "only_input_differs ''seed'' (snd (template_two_slots ! 2)) (snd (graph r ! 2))" by simp
  from a[of 3] c3 have n3: "snd (graph r ! 3) = snd (template_two_slots ! 3)" by simp
  show ?thesis by (rule exI[of _ r]) (intro conjI r k n0 n1 n2 n3)
qed

text \<open>
  Claim C5. Whenever the mutator returns, every sampler node that has a dictionary of
  inputs holds as its \<^verbatim>\<open>seed\<close> the integer of one of the drawn UUIDs reduced modulo
  \<open>2 ^ 32\<close>, a value from 0 up to but not including \<open>2 ^ 32\<close>; the same holds of every
  seed the mutator reports, also one written to a dictionary of inputs that no node keeps.
\<close>

theorem seed_in_range:
  assumes "modify_workflow uuid4 w positive_prompt negative_prompt = Inr r"
  shows "(\<forall>j < length w. \<forall>i.
            node_class (snd (w ! j)) ''KSampler'' \<and> node_inputs (snd (w ! j)) = Some (JObj i) \<longrightarrow>
            (\<exists>c. node_input (snd (graph r ! j)) ''seed'' = Some (JInt (uuid4 c mod 2 ^ 32)) \<and>
                 0 \<le> uuid4 c mod 2 ^ 32 \<and> uuid4 c mod 2 ^ 32 < 2 ^ 32)) \<and>
         (\<forall>a v. RandomizedSeed a v \<in> set (printed_lines r) \<longrightarrow>
            (\<exists>c. v = JInt (uuid4 c mod 2 ^ 32) \<and>
                 0 \<le> uuid4 c mod 2 ^ 32 \<and> uuid4 c mod 2 ^ 32 < 2 ^ 32))"
proof -
  from assms obtain st' where
    it: "modify_items uuid4 positive_prompt negative_prompt w \<lparr>modified = False, draws = 0, out = []\<rparr>
           = Inr (graph r, st')"
    and pl: "printed_lines r = (if \<not> modified st' then out st' @ [WarningNoNodes] else out st')"
    by (rule modify_workflow_Inr)
  have range: "0 \<le> uuid4 c mod 2 ^ 32 \<and> uuid4 c mod 2 ^ 32 < 2 ^ 32" for c
    by simp
  have nodes: "\<exists>c. node_input (snd (graph r ! j)) ''seed'' = Some (JInt (uuid4 c mod 2 ^ 32)) \<and>
                 0 \<le> uuid4 c mod 2 ^ 32 \<and> uuid4 c mod 2 ^ 32 < 2 ^ 32"
    if j: "j < length w" and ks: "node_class (snd (w ! j)) ''KSampler''"
      and inp: "node_inputs (snd (w ! j)) = Some (JObj i)" for j i
  proof -
    from modify_items_nth[OF it] j obtain s s' where
      "modify_node uuid4 positive_prompt negative_prompt (fst (w ! j)) (snd (w ! j)) s
         = Inr (snd (graph r ! j), s')" by blast
    from modify_node_cases[OF this] ks inp
    have "snd (graph r ! j) = set_node_input (snd (w ! j)) ''seed'' (JInt (uuid4 (draws s) mod 2 ^ 32))"
      by (auto dest: node_class_unique)
    with node_input_set[OF inp] range show ?thesis by metis
  qed
  have lines: "\<exists>c. v = JInt (uuid4 c mod 2 ^ 32) \<and>
                 0 \<le> uuid4 c mod 2 ^ 32 \<and> uuid4 c mod 2 ^ 32 < 2 ^ 32"
    if "RandomizedSeed a v \<in> set (printed_lines r)" for a v
  proof -
    from that pl have "RandomizedSeed a v \<in> set (out st')" by (simp split: if_splits)
    with modify_items_state[OF it] obtain c where "v = JInt (uuid4 c mod 2 ^ 32)" by auto
    with range show ?thesis by blast
  qed
  show ?thesis using nodes lines by blast
qed

theorem seed_in_range_witness:
  "\<exists>r. modify_workflow counting_uuid4 template_two_slots ''A'' ''B'' = Inr r \<and>
     node_class (snd (template_two_slots ! 2)) ''KSampler'' \<and>
     (\<exists>c. node_input (snd (graph r ! 2)) ''seed'' = Some (JInt (counting_uuid4 c mod 2 ^ 32)) \<and>
          0 \<le> counting_uuid4 c mod 2 ^ 32 \<and> counting_uuid4 c mod 2 ^ 32 < 2 ^ 32) \<and>
     node_input (snd (graph r ! 2)) ''seed'' = Some (JInt 7)"
proof -
  obtain r where r: "modify_workflow counting_uuid4 template_two_slots ''A'' ''B'' = Inr r"
    and g: "node_input (snd (graph r ! 2)) ''seed'' = Some (JInt 7)"
    using eval_two_slots by (simp add: node_input_def node_inputs_def)
  have ks: "node_class (snd (template_two_slots ! 2)) ''KSampler''"
    and inp: "node_inputs (snd (template_two_slots ! 2)) = Some (JObj [(''seed'', JInt 5), (''steps'', JInt 20)])"
    and len: "2 < length template_two_slots"
    by (simp_all add: template_two_slots_def node_class_def node_inputs_def dict_get_def)
  from seed_in_range[OF r] len ks inp
  have "\<exists>c. node_input (snd (graph r ! 2)) ''seed'' = Some (JInt (counting_uuid4 c mod 2 ^ 32)) \<and>
          0 \<le> counting_uuid4 c mod 2 ^ 32 \<and> counting_uuid4 c mod 2 ^ 32 < 2 ^ 32"
    by blast
  with r ks g show ?thesis by blast
qed

text \<open>
  Claim C8. Whenever the mutator returns, a text-encoding or sampler node without an
  \<^verbatim>\<open>inputs\<close> entry is in the returned graph exactly as it was loaded; and a graph that
  holds such a node counts as modified: the warning about missing nodes is not printed.
\<close>

theorem detached_inputs_not_attached:
  assumes "modify_workflow uuid4 w positive_prompt negative_prompt = Inr r"
  shows "(\<forall>j < length w.
            (node_class (snd (w ! j)) ''CLIPTextEncode'' \<or> node_class (snd (w ! j)) ''KSampler'') \<and>
            node_inputs (snd (w ! j)) = None \<longrightarrow>
            graph r ! j = w ! j) \<and>
         ((\<exists>j < length w.
            (node_class (snd (w ! j)) ''CLIPTextEncode'' \<or> node_class (snd (w ! j)) ''KSampler'') \<and>
            node_inputs (snd (w ! j)) = None) \<longrightarrow>
          WarningNoNodes \<notin> set (printed_lines r))"
proof -
  from assms obtain st' where
    it: "modify_items uuid4 positive_prompt negative_prompt w \<lparr>modified = False, draws = 0, out = []\<rparr>
           = Inr (graph r, st')"
    and pl: "printed_lines r = (if \<not> modified st' then out st' @ [WarningNoNodes] else out st')"
    by (rule modify_workflow_Inr)
  note nth = modify_items_nth[OF it]
  note state = modify_items_state[OF it]
  have same: "graph r ! j = w ! j"
    if j: "j < length w"
      and c: "node_class (snd (w ! j)) ''CLIPTextEncode'' \<or> node_class (snd (w ! j)) ''KSampler''"
      and inp: "node_inputs (snd (w ! j)) = None" for j
  proof -
    from nth j obtain s s' where
      k: "fst (graph r ! j) = fst (w ! j)" and
      m: "modify_node uuid4 positive_prompt negative_prompt (fst (w ! j)) (snd (w ! j)) s
         = Inr (snd (graph r ! j), s')" by blast
    from modify_node_cases[OF m] c inp have "snd (graph r ! j) = snd (w ! j)" by auto
    with k show ?thesis by (simp add: prod_eq_iff)
  qed
  have quiet: "WarningNoNodes \<notin> set (printed_lines r)"
    if j: "j < length w"
      and c: "node_class (snd (w ! j)) ''CLIPTextEncode'' \<or> node_class (snd (w ! j)) ''KSampler''" for j
  proof -
    from j have "w ! j \<in> set w" by simp
    with c state have m: "modified st'" by auto
    from state have "WarningNoNodes \<notin> set (out st')" by auto
    with m pl show ?thesis by simp
  qed
  show ?thesis using same quiet by blast
qed

lemma eval_no_inputs:
  "modify_workflow counting_uuid4 template_no_inputs ''A'' ''B'' =
     Inr \<lparr>graph = template_no_inputs,
          printed_lines = [SetPositive ''6'', RandomizedSeed ''3'' (JInt 7)]\<rparr>"
  by (simp add: template_no_inputs_def counting_uuid4_def mutator_defs)

theorem detached_inputs_not_attached_witness:
  "\<exists>r. modify_workflow counting_uuid4 template_no_inputs ''A'' ''B'' = Inr r \<and>
     node_class (snd (template_no_inputs ! 0)) ''CLIPTextEncode'' \<and>
     node_inputs (snd (template_no_inputs ! 0)) = None \<and>
     node_class (snd (template_no_inputs ! 1)) ''KSampler'' \<and>
     node_inputs (snd (template_no_inputs ! 1)) = None \<and>
     graph r ! 0 = template_no_inputs ! 0 \<and>
     graph r ! 1 = template_no_inputs ! 1 \<and>
     WarningNoNodes \<notin> set (printed_lines r)"
proof -
  obtain r where r: "modify_workflow counting_uuid4 template_no_inputs ''A'' ''B'' = Inr r"
    using eval_no_inputs by blast
  have c0: "node_class (snd (template_no_inputs ! 0)) ''CLIPTextEncode''"
    and i0: "node_inputs (snd (template_no_inputs ! 0)) = None"
    and c1: "node_class (snd (template_no_inputs ! 1)) ''KSampler''"
    and i1: "node_inputs (snd (template_no_inputs ! 1)) = None"
    and len: "0 < length template_no_inputs" "1 < length template_no_inputs"
    by (simp_all add: template_no_inputs_def node_class_def node_inputs_def dict_get_def)
  note t = detached_inputs_not_attached[OF r]
  from t c0 i0 len(1) have g0: "graph r ! 0 = template_no_inputs ! 0" by blast
  from t c1 i1 len(2) have g1: "graph r ! 1 = template_no_inputs ! 1" by blast
  from t c0 i0 len(1) have q: "WarningNoNodes \<notin> set (printed_lines r)" by blast
  show ?thesis by (rule exI[of _ r]) (intro conjI r c0 i0 c1 i1 g0 g1 q)
qed

text \<open>
  Claim C9. A graph that holds a text-encoding node whose dictionary of inputs has a
  \<^verbatim>\<open>text\<close> that is not a string (a reference to another node, for one) makes the mutator
  raise: no graph is returned. When the nodes before it are nodes on which the mutator
  does not raise, the exception is the \<^verbatim>\<open>AttributeError\<close> of the classification.
\<close>

theorem non_string_text_raises:
  assumes "w = before @ (k, n) # rest"
    and "node_class n ''CLIPTextEncode''"
    and "node_inputs n = Some (JObj i)"
    and "map_of i ''text'' = Some v"
    and "\<forall>t. v \<noteq> JStr t"
  shows "(\<exists>e. modify_workflow uuid4 w positive_prompt negative_prompt = Inl e) \<and>
         (list_all (\<lambda>x. node_ok (snd x)) before \<longrightarrow>
            modify_workflow uuid4 w positive_prompt negative_prompt = Inl AttributeError)"
proof -
  have nostr: "\<forall>t. dict_get i ''text'' (JStr '''') \<noteq> JStr t"
    using assms(4,5) by (simp add: dict_get_def)
  have raises: "modify_node uuid4 positive_prompt negative_prompt k n s = Inl AttributeError" for s
    by (rule modify_node_clip_nonstr[OF assms(2,3) nostr])
  have never: "modify_workflow uuid4 w positive_prompt negative_prompt \<noteq> Inr r" for r
  proof
    assume a: "modify_workflow uuid4 w positive_prompt negative_prompt = Inr r"
    then obtain st' where
      it: "modify_items uuid4 positive_prompt negative_prompt w \<lparr>modified = False, draws = 0, out = []\<rparr>
           = Inr (graph r, st')"
      by (rule modify_workflow_Inr)
    have j: "length before < length w" and wj: "w ! length before = (k, n)"
      using assms(1) by simp_all
    from modify_items_nth[OF it] j wj obtain s s' where
      "modify_node uuid4 positive_prompt negative_prompt k n s = Inr (snd (graph r ! length before), s')"
      by force
    with raises show False by simp
  qed
  then have some: "\<exists>e. modify_workflow uuid4 w positive_prompt negative_prompt = Inl e"
    by (cases "modify_workflow uuid4 w positive_prompt negative_prompt") auto
  have first: "modify_items uuid4 positive_prompt negative_prompt (before @ (k, n) # rest) s = Inl AttributeError"
    if "list_all (\<lambda>x. node_ok (snd x)) before" for s
    using that
  proof (induction before arbitrary: s)
    case Nil
    then show ?case by (simp add: raises)
  next
    case (Cons x before)
    obtain k' n' where x: "x = (k', n')" by (cases x)
    from Cons.prems x have "node_ok n'" by simp
    from modify_node_total[OF this] obtain m s1 where
      "modify_node uuid4 positive_prompt negative_prompt k' n' s = Inr (m, s1)" by blast
    moreover from Cons.prems have "list_all (\<lambda>x. node_ok (snd x)) before" by simp
    from Cons.IH[OF this]
    have "modify_items uuid4 positive_prompt negative_prompt (before @ (k, n) # rest) s1 = Inl AttributeError" .
    ultimately show ?case using x by simp
  qed
  have "modify_workflow uuid4 w positive_prompt negative_prompt = Inl AttributeError"
    if "list_all (\<lambda>x. node_ok (snd x)) before"
    using first[OF that] assms(1) by (simp add: modify_workflow_def)
  with some show ?thesis by blast
qed

theorem non_string_text_raises_witness:
  "template_linked_text =
     [] @ (''6'', JObj [(''class_type'', JStr ''CLIPTextEncode''),
                    (''inputs'', JObj [(''text'', JList [JStr ''12'', JInt 0]),
                                       (''clip'', JList [JStr ''4'', JInt 1])])]) # [] \<and>
   modify_workflow zero_uuid4 template_linked_text ''A'' ''B'' = Inl AttributeError"
proof -
  let ?i = "[(''text'', JList [JStr ''12'', JInt 0]), (''clip'', JList [JStr ''4'', JInt 1])]"
  let ?n = "JObj [(''class_type'', JStr ''CLIPTextEncode''), (''inputs'', JObj ?i)]"
  have w: "template_linked_text = [] @ (''6'', ?n) # []"
    by (simp add: template_linked_text_def)
  have c: "node_class ?n ''CLIPTextEncode''"
    and i: "node_inputs ?n = Some (JObj ?i)"
    and t: "map_of ?i ''text'' = Some (JList [JStr ''12'', JInt 0])"
    and s: "\<forall>t. JList [JStr ''12'', JInt 0] \<noteq> JStr t"
    and b: "list_all (\<lambda>x. node_ok (snd x)) []"
    by (simp_all add: node_class_def node_inputs_def dict_get_def)
  from non_string_text_raises[OF w c i t s, of zero_uuid4 "''A''" "''B''"] b
  have "modify_workflow zero_uuid4 template_linked_text ''A'' ''B'' = Inl AttributeError"
    by blast
  with w show ?thesis by blast
qed

text \<open>
  Claim C3, amended. On a graph in which the \<^verbatim>\<open>inputs\<close> of every text-encoding and sampler
  node, when present, is a dictionary, and the \<^verbatim>\<open>text\<close> of every text-encoding node, when
  present, is a string, the mutator returns a graph with the same node identifiers, and
  every text-encoding node that has a dictionary of inputs holds as its \<^verbatim>\<open>text\<close> the
  negative prompt if its text before (the empty string when it had none) contains
  \<^verbatim>\<open>negative\<close> or \<^verbatim>\<open>bad\<close> in any letter case, and the positive prompt otherwise.
\<close>

theorem text_slots_filled:
  assumes "list_all (\<lambda>x. node_ok (snd x)) w"
  shows "\<exists>r. modify_workflow uuid4 w positive_prompt negative_prompt = Inr r \<and>
     map fst (graph r) = map fst w \<and>
     (\<forall>j < length w. \<forall>i t.
        node_class (snd (w ! j)) ''CLIPTextEncode'' \<and>
        node_inputs (snd (w ! j)) = Some (JObj i) \<and>
        dict_get i ''text'' (JStr '''') = JStr t \<longrightarrow>
        node_input (snd (graph r ! j)) ''text'' =
          Some (JStr (if str_contains (lower t) ''negative'' \<or> str_contains (lower t) ''bad''
                      then negative_prompt else positive_prompt)))"
proof -
  from modify_items_total[OF assms] obtain w' st' where
    it: "modify_items uuid4 positive_prompt negative_prompt w \<lparr>modified = False, draws = 0, out = []\<rparr>
           = Inr (w', st')" by blast
  define r where
    "r = \<lparr>graph = w', printed_lines = (if \<not> modified st' then out st' @ [WarningNoNodes] else out st')\<rparr>"
  have ret: "modify_workflow uuid4 w positive_prompt negative_prompt = Inr r"
    using it by (simp add: modify_workflow_def r_def)
  have g: "graph r = w'" by (simp add: r_def)
  note nth = modify_items_nth[OF it]
  have keys: "map fst (graph r) = map fst w"
    unfolding g using nth by (intro nth_equalityI) simp_all
  have slot: "node_input (snd (graph r ! j)) ''text'' =
          Some (JStr (if str_contains (lower t) ''negative'' \<or> str_contains (lower t) ''bad''
                      then negative_prompt else positive_prompt))"
    if j: "j < length w" and c: "node_class (snd (w ! j)) ''CLIPTextEncode''"
      and inp: "node_inputs (snd (w ! j)) = Some (JObj i)"
      and t: "dict_get i ''text'' (JStr '''') = JStr t" for j i t
  proof -
    from nth j obtain s s' where
      "modify_node uuid4 positive_prompt negative_prompt (fst (w ! j)) (snd (w ! j)) s
         = Inr (snd (w' ! j), s')" by blast
    with modify_node_clip_str[OF c inp t, of uuid4 positive_prompt negative_prompt "fst (w ! j)" s]
    have "snd (w' ! j) =
      set_node_input (snd (w ! j)) ''text'' (JStr (slot_prompt positive_prompt negative_prompt t))"
      by simp
    with node_input_set[OF inp] show ?thesis unfolding g by (simp add: slot_prompt_def)
  qed
  show ?thesis using ret keys slot by blast
qed

theorem text_slots_filled_witness:
  "list_all (\<lambda>x. node_ok (snd x)) template_two_slots \<and>
   (\<exists>r. modify_workflow counting_uuid4 template_two_slots ''A'' ''B'' = Inr r \<and>
      node_input (snd (graph r ! 0)) ''text'' = Some (JStr ''B'') \<and>
      node_input (snd (graph r ! 1)) ''text'' = Some (JStr ''A''))"
proof -
  let ?clip = "JList [JStr ''4'', JInt 1]"
  let ?i0 = "[(''text'', JStr ''BAD hands, blurry''), (''clip'', ?clip)]"
  let ?i1 = "[(''text'', JStr ''a photo of a cat''), (''clip'', ?clip)]"
  have ok: "list_all (\<lambda>x. node_ok (snd x)) template_two_slots"
    by (simp add: template_two_slots_def node_ok_def node_class_def node_inputs_def dict_get_def)
  have len: "0 < length template_two_slots" "1 < length template_two_slots"
    and c0: "node_class (snd (template_two_slots ! 0)) ''CLIPTextEncode''"
    and n0: "node_inputs (snd (template_two_slots ! 0)) = Some (JObj ?i0)"
    and t0: "dict_get ?i0 ''text'' (JStr '''') = JStr ''BAD hands, blurry''"
    and c1: "node_class (snd (template_two_slots ! 1)) ''CLIPTextEncode''"
    and n1: "node_inputs (snd (template_two_slots ! 1)) = Some (JObj ?i1)"
    and t1: "dict_get ?i1 ''text'' (JStr '''') = JStr ''a photo of a cat''"
    by (simp_all add: template_two_slots_def node_class_def node_inputs_def dict_get_def)
  have s0: "str_contains (lower ''BAD hands, blurry'') ''negative'' \<or>
            str_contains (lower ''BAD hands, blurry'') ''bad''"
    and s1: "\<not> (str_contains (lower ''a photo of a cat'') ''negative'' \<or>
            str_contains (lower ''a photo of a cat'') ''bad'')"
    by (simp_all add: lower_def lower_char_def char_of_def bit_0)
  from text_slots_filled[OF ok, of counting_uuid4 "''A''" "''B''"] obtain r where
    r: "modify_workflow counting_uuid4 template_two_slots ''A'' ''B'' = Inr r" and
    a: "\<And>j i t. j < length template_two_slots \<Longrightarrow>
        node_class (snd (template_two_slots ! j)) ''CLIPTextEncode'' \<Longrightarrow>
        node_inputs (snd (template_two_slots ! j)) = Some (JObj i) \<Longrightarrow>
        dict_get i ''text'' (JStr '''') = JStr t \<Longrightarrow>
        node_input (snd (graph r ! j)) ''text'' =
          Some (JStr (if str_contains (lower t) ''negative'' \<or> str_contains (lower t) ''bad''
                      then ''B'' else ''A''))"
    by blast
  from a[OF len(1) c0 n0 t0] s0 have g0: "node_input (snd (graph r ! 0)) ''text'' = Some (JStr ''B'')"
    by simp
  from a[OF len(2) c1 n1 t1] s1 have g1: "node_input (snd (graph r ! 1)) ''text'' = Some (JStr ''A'')"
    by simp
  show ?thesis using ok r g0 g1 by blast
qed

text \<open>
  The claim as first stated, for every text-encoding node of every graph, fails twice:
  a text that refers to another node makes the mutator raise, so that no node is
  overwritten, and a text-encoding node without \<^verbatim>\<open>inputs\<close> is returned as it was.
\<close>

theorem text_slots_filled_counterexample:
  "modify_workflow zero_uuid4 template_text_from_node ''A'' ''B'' = Inl AttributeError \<and>
   modify_workflow zero_uuid4 template_no_inputs ''A'' ''B'' =
     Inr \<lparr>graph = template_no_inputs,
          printed_lines = [SetPositive ''6'', RandomizedSeed ''3'' (JInt 0)]\<rparr>"
  by (simp add: template_text_from_node_def template_no_inputs_def zero_uuid4_def mutator_defs)

section \<open>Properties of the completion watcher\<close>

lemma watch_loop_timed_out:
  "clock env (Suc i) - start_time > timeout \<Longrightarrow>
   watch_loop env start_time timeout prompt_id i = Some (Inl (HTTPException 504 TimeoutWaiting))"
  by (subst watch_loop.simps) simp

lemma watch_loop_round:
  "clock env (Suc i) - start_time \<le> timeout \<Longrightarrow>
   watch_loop env start_time timeout prompt_id i =
     (case round_step prompt_id (recv env i) of
        Continue \<Rightarrow> watch_loop env start_time timeout prompt_id (Suc i)
      | Return b \<Rightarrow> Some (Inr b)
      | Raise e \<Rightarrow> Some (Inl e))"
  by (subst watch_loop.simps) simp

lemma watch_loop_skip:
  assumes "\<forall>j. i \<le> j \<and> j < n \<longrightarrow>
             clock env (Suc j) - start_time \<le> timeout \<and> round_step prompt_id (recv env j) = Continue"
    and "i \<le> n"
  shows "watch_loop env start_time timeout prompt_id i = watch_loop env start_time timeout prompt_id n"
  using assms
proof (induction "n - i" arbitrary: i)
  case 0
  then show ?case by simp
next
  case (Suc d)
  then have i: "i < n" by simp
  with Suc.prems have c: "clock env (Suc i) - start_time \<le> timeout"
    and r: "round_step prompt_id (recv env i) = Continue" by auto
  have "watch_loop env start_time timeout prompt_id i = watch_loop env start_time timeout prompt_id (Suc i)"
    using watch_loop_round[OF c] r by simp
  also have "\<dots> = watch_loop env start_time timeout prompt_id n"
    using Suc.hyps(1)[of "Suc i"] Suc.hyps(2) Suc.prems i by auto
  finally show ?case .
qed

lemma handle_message_event:
  "handle_message prompt_id (ValidJson (JObj event)) =
     (if event_tag event = Some (JStr ''executing'') then
        (case event_payload event of
           JObj p \<Rightarrow> if names_job (JObj p) prompt_id \<and> no_current_node (JObj p)
                     then Return True else Continue
         | _ \<Rightarrow> Raise AttributeError)
      else if event_tag event = Some (JStr ''execution_error'') then
        (case event_payload event of
           JObj p \<Rightarrow> if names_job (JObj p) prompt_id
                     then Raise (HTTPException 500 (ExecutionErrorDetail (JObj p))) else Continue
         | _ \<Rightarrow> Raise AttributeError)
      else Continue)"
  by (auto simp: handle_message_def json_loads_def py_get_def dict_get_def event_tag_def
      event_payload_def names_job_def no_current_node_def
      split: option.splits json.splits)

lemma watch_from_timed_out:
  "clock env (Suc i) - clock env 0 > timeout \<Longrightarrow>
   watch_from env prompt_id timeout i = Some (Inl (HTTPException 504 TimeoutWaiting))"
  by (simp add: watch_from_def watch_loop_timed_out seen_by_caller_def websocket_error_def)

lemma watch_from_round:
  "clock env (Suc i) - clock env 0 \<le> timeout \<Longrightarrow>
   watch_from env prompt_id timeout i =
     (case round_step prompt_id (recv env i) of
        Continue \<Rightarrow> watch_from env prompt_id timeout (Suc i)
      | Return b \<Rightarrow> Some (Inr b)
      | Raise e \<Rightarrow> Some (Inl (websocket_error e)))"
  by (simp add: watch_from_def watch_loop_round seen_by_caller_def split: step.splits)

lemma watch_from_skip:
  assumes "\<forall>j < n. clock env (Suc j) - clock env 0 \<le> timeout \<and>
                     round_step prompt_id (recv env j) = Continue"
  shows "watch_from env prompt_id timeout 0 = watch_from env prompt_id timeout n"
  unfolding watch_from_def using watch_loop_skip[of 0 n env "clock env 0" timeout prompt_id] assms
  by simp

lemma benign_continues: "benign prompt_id r \<Longrightarrow> round_step prompt_id r = Continue"
  by (auto simp: benign_def round_step_def handle_message_event well_formed_event_def
      terminating_def is_object_def
      split: recv_outcome.splits message.splits json.splits if_splits)

text \<open>
  Claim C1. In a round that begins within the deadline and receives an event: an
  \<^verbatim>\<open>executing\<close> event that names the watched job and has no current node (absent or null)
  ends the watch with \<^verbatim>\<open>True\<close>; any other \<^verbatim>\<open>executing\<close> event, so one with a current node,
  leaves the watch to the next round; an \<^verbatim>\<open>execution_error\<close> event that names the watched
  job ends the watch with status 500 and the event's payload as the detail; an
  \<^verbatim>\<open>execution_error\<close> event of another job, and an event with any other tag, leave the
  watch to the next round.
\<close>

theorem event_handling:
  assumes "clock env (Suc i) - clock env 0 \<le> timeout"
    and "recv env i = RecvMessage (ValidJson (JObj event))"
  shows
   "(event_tag event = Some (JStr ''executing'') \<and> names_job (event_payload event) prompt_id \<and>
       no_current_node (event_payload event) \<longrightarrow>
     watch_from env prompt_id timeout i = Some (Inr True)) \<and>
    (event_tag event = Some (JStr ''executing'') \<and> is_object (event_payload event) \<and>
       \<not> (names_job (event_payload event) prompt_id \<and> no_current_node (event_payload event)) \<longrightarrow>
     watch_from env prompt_id timeout i = watch_from env prompt_id timeout (Suc i)) \<and>
    (event_tag event = Some (JStr ''execution_error'') \<and> names_job (event_payload event) prompt_id \<longrightarrow>
     watch_from env prompt_id timeout i =
       Some (Inl (HTTPException 500 (ExecutionErrorDetail (event_payload event))))) \<and>
    (event_tag event = Some (JStr ''execution_error'') \<and> is_object (event_payload event) \<and>
       \<not> names_job (event_payload event) prompt_id \<longrightarrow>
     watch_from env prompt_id timeout i = watch_from env prompt_id timeout (Suc i)) \<and>
    (event_tag event \<noteq> Some (JStr ''executing'') \<and>
       event_tag event \<noteq> Some (JStr ''execution_error'') \<longrightarrow>
     watch_from env prompt_id timeout i = watch_from env prompt_id timeout (Suc i))"
proof -
  have step: "watch_from env prompt_id timeout i =
     (case handle_message prompt_id (ValidJson (JObj event)) of
        Continue \<Rightarrow> watch_from env prompt_id timeout (Suc i)
      | Return b \<Rightarrow> Some (Inr b)
      | Raise e \<Rightarrow> Some (Inl (websocket_error e)))"
    using watch_from_round[OF assms(1)] assms(2) by (simp add: round_step_def)
  show ?thesis
    unfolding step handle_message_event
    by (auto simp: names_job_def no_current_node_def is_object_def websocket_error_def
        split: json.splits)
qed

lemma handle_message_invalid: "handle_message prompt_id InvalidJson = Raise JSONDecodeError"
  by (simp add: handle_message_def json_loads_def)

lemmas event_defs =
  event_tag_def event_payload_def names_job_def no_current_node_def is_object_def dict_get_def
  status_event_def progress_event_def done_event_def other_job_error_def own_job_error_def

theorem event_handling_witness:
  "watch_from watch_completes ''job-1'' default_timeout 0 =
     watch_from watch_completes ''job-1'' default_timeout (Suc 0) \<and>
   watch_from watch_completes ''job-1'' default_timeout (Suc 0) =
     watch_from watch_completes ''job-1'' default_timeout (Suc (Suc 0)) \<and>
   watch_from watch_completes ''job-1'' default_timeout (Suc (Suc 0)) =
     watch_from watch_completes ''job-1'' default_timeout (Suc (Suc (Suc 0))) \<and>
   watch_from watch_completes ''job-1'' default_timeout (Suc (Suc (Suc 0))) = Some (Inr True) \<and>
   watch_from watch_fails ''job-1'' default_timeout 0 =
     Some (Inl (HTTPException 500 (ExecutionErrorDetail
       (JObj [(''prompt_id'', JStr ''job-1''), (''exception_message'', JStr ''out of memory'')]))))"
proof -
  have c: "clock watch_completes (Suc i) - clock watch_completes 0 \<le> default_timeout" if "i < 4" for i
    using that by (simp add: watch_completes_def default_timeout_def)
  have r0: "recv watch_completes 0 = RecvMessage (ValidJson (JObj status_event))"
    and r1: "recv watch_completes (Suc 0) = RecvMessage (ValidJson (JObj progress_event))"
    and r2: "recv watch_completes (Suc (Suc 0)) = RecvMessage (ValidJson (JObj other_job_error))"
    and r3: "recv watch_completes (Suc (Suc (Suc 0))) = RecvMessage (ValidJson (JObj done_event))"
    by (simp_all add: watch_completes_def rounds_def event_received_def)
  have e0: "event_tag status_event \<noteq> Some (JStr ''executing'') \<and>
            event_tag status_event \<noteq> Some (JStr ''execution_error'')"
    and e1: "event_tag progress_event = Some (JStr ''executing'') \<and>
             is_object (event_payload progress_event) \<and>
             \<not> (names_job (event_payload progress_event) ''job-1'' \<and>
                no_current_node (event_payload progress_event))"
    and e2: "event_tag other_job_error = Some (JStr ''execution_error'') \<and>
             is_object (event_payload other_job_error) \<and>
             \<not> names_job (event_payload other_job_error) ''job-1''"
    and e3: "event_tag done_event = Some (JStr ''executing'') \<and>
             names_job (event_payload done_event) ''job-1'' \<and>
             no_current_node (event_payload done_event)"
    and e4: "event_tag own_job_error = Some (JStr ''execution_error'') \<and>
             names_job (event_payload own_job_error) ''job-1''"
    and p4: "event_payload own_job_error =
       JObj [(''prompt_id'', JStr ''job-1''), (''exception_message'', JStr ''out of memory'')]"
    by (simp_all add: event_defs)
  have cf: "clock watch_fails (Suc 0) - clock watch_fails 0 \<le> default_timeout"
    and rf: "recv watch_fails 0 = RecvMessage (ValidJson (JObj own_job_error))"
    by (simp_all add: watch_fails_def default_timeout_def rounds_def event_received_def)
  from event_handling[OF c r0, of "''job-1''"] e0
  have s0: "watch_from watch_completes ''job-1'' default_timeout 0 =
     watch_from watch_completes ''job-1'' default_timeout (Suc 0)" by simp
  from event_handling[OF c r1, of "''job-1''"] e1
  have s1: "watch_from watch_completes ''job-1'' default_timeout (Suc 0) =
     watch_from watch_completes ''job-1'' default_timeout (Suc (Suc 0))" by simp
  from event_handling[OF c r2, of "''job-1''"] e2
  have s2: "watch_from watch_completes ''job-1'' default_timeout (Suc (Suc 0)) =
     watch_from watch_completes ''job-1'' default_timeout (Suc (Suc (Suc 0)))" by simp
  from event_handling[OF c r3, of "''job-1''"] e3
  have s3: "watch_from watch_completes ''job-1'' default_timeout (Suc (Suc (Suc 0))) = Some (Inr True)"
    by simp
  from event_handling[OF cf rf, of "''job-1''"] e4 p4
  have s4: "watch_from watch_fails ''job-1'' default_timeout 0 =
     Some (Inl (HTTPException 500 (ExecutionErrorDetail
       (JObj [(''prompt_id'', JStr ''job-1''), (''exception_message'', JStr ''out of memory'')]))))"
    by simp
  show ?thesis by (intro conjI s0 s1 s2 s3 s4)
qed

text \<open>
  Claim C2, amended. Let the connection be made, and let each of the first \<open>n\<close> rounds
  begin within the deadline and receive either nothing within its five time units or a
  well-formed event that is not terminating. If round \<open>n\<close> begins after the deadline, more
  than \<open>timeout\<close> after the start, the watch ends with status 504: what was received has
  not moved the deadline. If round \<open>n\<close> begins at the deadline or before it, the watch is
  still going: what round \<open>n\<close> receives decides, as in any round, so that the polls and
  events before it were no failure.
\<close>

theorem deadline_exceeded:
  assumes "connect_error env = None"
    and "\<forall>j < n. clock env (Suc j) - clock env 0 \<le> timeout \<and> benign prompt_id (recv env j)"
  shows "(clock env (Suc n) - clock env 0 > timeout \<longrightarrow>
            wait_for_completion env prompt_id timeout =
              Some (Inl (HTTPException 504 TimeoutWaiting))) \<and>
         (clock env (Suc n) - clock env 0 \<le> timeout \<longrightarrow>
            wait_for_completion env prompt_id timeout =
              (case round_step prompt_id (recv env n) of
                 Continue \<Rightarrow> watch_from env prompt_id timeout (Suc n)
               | Return b \<Rightarrow> Some (Inr b)
               | Raise e \<Rightarrow> Some (Inl (websocket_error e))))"
proof -
  have "\<forall>j < n. clock env (Suc j) - clock env 0 \<le> timeout \<and>
                 round_step prompt_id (recv env j) = Continue"
    using assms(2) benign_continues by blast
  from watch_from_skip[OF this] assms(1)
  have reached: "wait_for_completion env prompt_id timeout = watch_from env prompt_id timeout n"
    by (simp add: wait_for_completion_def)
  have late: "wait_for_completion env prompt_id timeout =
      Some (Inl (HTTPException 504 TimeoutWaiting))"
    if "clock env (Suc n) - clock env 0 > timeout"
    unfolding reached by (rule watch_from_timed_out[OF that])
  have within: "wait_for_completion env prompt_id timeout =
      (case round_step prompt_id (recv env n) of
         Continue \<Rightarrow> watch_from env prompt_id timeout (Suc n)
       | Return b \<Rightarrow> Some (Inr b)
       | Raise e \<Rightarrow> Some (Inl (websocket_error e)))"
    if "clock env (Suc n) - clock env 0 \<le> timeout"
    unfolding reached by (rule watch_from_round[OF that])
  show ?thesis using late within by blast
qed

theorem deadline_exceeded_witness:
  "connect_error watch_kept_busy = None \<and>
   clock watch_kept_busy 1 - clock watch_kept_busy 0 \<le> default_timeout \<and>
   clock watch_kept_busy 2 - clock watch_kept_busy 0 \<le> default_timeout \<and>
   clock watch_kept_busy 3 - clock watch_kept_busy 0 \<le> default_timeout \<and>
   benign ''job-1'' (recv watch_kept_busy 0) \<and>
   benign ''job-1'' (recv watch_kept_busy 1) \<and>
   benign ''job-1'' (recv watch_kept_busy 2) \<and>
   recv watch_kept_busy 3 = event_received done_event \<and>
   clock watch_kept_busy 4 - clock watch_kept_busy 0 > default_timeout \<and>
   wait_for_completion watch_kept_busy ''job-1'' default_timeout =
     Some (Inl (HTTPException 504 TimeoutWaiting)) \<and>
   clock watch_kept_busy 4 - clock watch_kept_busy 0 = 400 \<and>
   wait_for_completion watch_kept_busy ''job-1'' 400 = Some (Inr True)"
proof -
  have c: "connect_error watch_kept_busy = None"
    and t: "clock watch_kept_busy 1 - clock watch_kept_busy 0 \<le> default_timeout"
      "clock watch_kept_busy 2 - clock watch_kept_busy 0 \<le> default_timeout"
      "clock watch_kept_busy 3 - clock watch_kept_busy 0 \<le> default_timeout"
    and late: "clock watch_kept_busy 4 - clock watch_kept_busy 0 > default_timeout"
    and edge: "clock watch_kept_busy 4 - clock watch_kept_busy 0 = 400"
    and d: "recv watch_kept_busy 3 = event_received done_event"
    by (simp_all add: watch_kept_busy_def default_timeout_def rounds_def)
  have b: "benign ''job-1'' (recv watch_kept_busy 0)"
    "benign ''job-1'' (recv watch_kept_busy 1)"
    "benign ''job-1'' (recv watch_kept_busy 2)"
    by (simp_all add: watch_kept_busy_def rounds_def event_received_def benign_def
        well_formed_event_def terminating_def event_defs)
  have pre: "\<forall>j < 3. clock watch_kept_busy (Suc j) - clock watch_kept_busy 0 \<le> tm \<and>
                     benign ''job-1'' (recv watch_kept_busy j)"
    if "default_timeout \<le> tm" for tm
  proof (intro allI impI)
    fix j :: nat assume "j < 3"
    then have "j = 0 \<or> j = 1 \<or> j = 2" by auto
    then show "clock watch_kept_busy (Suc j) - clock watch_kept_busy 0 \<le> tm \<and>
                     benign ''job-1'' (recv watch_kept_busy j)"
      using t b that by (auto simp: numeral_2_eq_2 numeral_3_eq_3)
  qed
  have late': "clock watch_kept_busy (Suc 3) - clock watch_kept_busy 0 > default_timeout"
    using late by simp
  from deadline_exceeded[OF c pre, of default_timeout] late'
  have out: "wait_for_completion watch_kept_busy ''job-1'' default_timeout =
     Some (Inl (HTTPException 504 TimeoutWaiting))" by simp
  have edge': "clock watch_kept_busy (Suc 3) - clock watch_kept_busy 0 \<le> 400"
    using edge by simp
  have r: "round_step ''job-1'' (recv watch_kept_busy 3) = Return True"
    unfolding d
    by (simp add: round_step_def event_received_def handle_message_event event_defs)
  from deadline_exceeded[OF c pre, of 400] edge' r
  have served: "wait_for_completion watch_kept_busy ''job-1'' 400 = Some (Inr True)"
    by (simp add: default_timeout_def)
  show ?thesis by (intro conjI c t b d late out edge served)
qed

text \<open>
  Without the condition on what is received the claim fails: a connection that closes,
  or a message that is not JSON, ends the watch with status 500 well before the
  deadline, though no terminating event has arrived.
\<close>

theorem deadline_exceeded_counterexample:
  "\<not> terminating ''job-1'' progress_event \<and>
   wait_for_completion watch_connection_drops ''job-1'' default_timeout =
     Some (Inl (HTTPException 500 (WebSocketErrorDetail ConnectionClosed))) \<and>
   wait_for_completion watch_gets_preview ''job-1'' default_timeout =
     Some (Inl (HTTPException 500 (WebSocketErrorDetail JSONDecodeError)))"
proof -
  have n: "\<not> terminating ''job-1'' progress_event"
    by (simp add: terminating_def event_defs)
  have c0: "clock watch_connection_drops (Suc 0) - clock watch_connection_drops 0 \<le> default_timeout"
    and c1: "clock watch_connection_drops (Suc (Suc 0)) - clock watch_connection_drops 0 \<le> default_timeout"
    and r0: "round_step ''job-1'' (recv watch_connection_drops 0) = Continue"
    and r1: "round_step ''job-1'' (recv watch_connection_drops (Suc 0)) = Raise ConnectionClosed"
    and cn: "connect_error watch_connection_drops = None"
    by (simp_all add: watch_connection_drops_def default_timeout_def rounds_def round_step_def)
  have a: "wait_for_completion watch_connection_drops ''job-1'' default_timeout =
     Some (Inl (HTTPException 500 (WebSocketErrorDetail ConnectionClosed)))"
    by (simp add: wait_for_completion_def cn watch_from_round[OF c0] r0 watch_from_round[OF c1] r1
        websocket_error_def)
  have p0: "clock watch_gets_preview (Suc 0) - clock watch_gets_preview 0 \<le> default_timeout"
    and p1: "clock watch_gets_preview (Suc (Suc 0)) - clock watch_gets_preview 0 \<le> default_timeout"
    and q0: "round_step ''job-1'' (recv watch_gets_preview 0) = Continue"
    and q1: "round_step ''job-1'' (recv watch_gets_preview (Suc 0)) = Raise JSONDecodeError"
    and pn: "connect_error watch_gets_preview = None"
    by (simp_all add: watch_gets_preview_def default_timeout_def rounds_def round_step_def
        event_received_def handle_message_event event_defs handle_message_invalid)
  have b: "wait_for_completion watch_gets_preview ''job-1'' default_timeout =
     Some (Inl (HTTPException 500 (WebSocketErrorDetail JSONDecodeError)))"
    by (simp add: wait_for_completion_def pn watch_from_round[OF p0] q0 watch_from_round[OF p1] q1
        websocket_error_def)
  show ?thesis by (intro conjI n a b)
qed

text \<open>
  Claim C10. A message that is not JSON, received in a round that begins within the
  deadline after rounds that left the watch going, ends the watch with status 500 and
  the detail of a WebSocket error; what would have been received next plays no part.
\<close>

theorem invalid_json_aborts:
  assumes "connect_error env = None"
    and "\<forall>j < n. clock env (Suc j) - clock env 0 \<le> timeout \<and> benign prompt_id (recv env j)"
    and "clock env (Suc n) - clock env 0 \<le> timeout"
    and "recv env n = RecvMessage InvalidJson"
  shows "wait_for_completion env prompt_id timeout =
           Some (Inl (HTTPException 500 (WebSocketErrorDetail JSONDecodeError)))"
proof -
  have "\<forall>j < n. clock env (Suc j) - clock env 0 \<le> timeout \<and>
                 round_step prompt_id (recv env j) = Continue"
    using assms(2) benign_continues by blast
  from watch_from_skip[OF this]
  have "watch_from env prompt_id timeout 0 = watch_from env prompt_id timeout n" .
  also have "\<dots> = Some (Inl (HTTPException 500 (WebSocketErrorDetail JSONDecodeError)))"
    using watch_from_round[OF assms(3)] assms(4)
    by (simp add: round_step_def handle_message_invalid websocket_error_def)
  finally show ?thesis using assms(1) by (simp add: wait_for_completion_def)
qed

theorem invalid_json_aborts_witness:
  "connect_error watch_gets_preview = None \<and>
   clock watch_gets_preview 1 - clock watch_gets_preview 0 \<le> default_timeout \<and>
   benign ''job-1'' (recv watch_gets_preview 0) \<and>
   clock watch_gets_preview 2 - clock watch_gets_preview 0 \<le> default_timeout \<and>
   recv watch_gets_preview 1 = RecvMessage InvalidJson \<and>
   recv watch_gets_preview 2 = event_received done_event \<and>
   wait_for_completion watch_gets_preview ''job-1'' default_timeout =
     Some (Inl (HTTPException 500 (WebSocketErrorDetail JSONDecodeError)))"
proof -
  have c: "connect_error watch_gets_preview = None"
    and t0: "clock watch_gets_preview 1 - clock watch_gets_preview 0 \<le> default_timeout"
    and t1: "clock watch_gets_preview 2 - clock watch_gets_preview 0 \<le> default_timeout"
    and r1: "recv watch_gets_preview 1 = RecvMessage InvalidJson"
    and r2: "recv watch_gets_preview 2 = event_received done_event"
    by (simp_all add: watch_gets_preview_def default_timeout_def rounds_def)
  have b: "benign ''job-1'' (recv watch_gets_preview 0)"
    by (simp add: watch_gets_preview_def rounds_def event_received_def benign_def
        well_formed_event_def terminating_def event_defs)
  have pre: "\<forall>j < 1. clock watch_gets_preview (Suc j) - clock watch_gets_preview 0 \<le> default_timeout \<and>
                     benign ''job-1'' (recv watch_gets_preview j)"
    using t0 b by simp
  have t1': "clock watch_gets_preview (Suc 1) - clock watch_gets_preview 0 \<le> default_timeout"
    using t1 by (simp add: numeral_2_eq_2)
  from invalid_json_aborts[OF c pre t1' r1]
  have "wait_for_completion watch_gets_preview ''job-1'' default_timeout =
     Some (Inl (HTTPException 500 (WebSocketErrorDetail JSONDecodeError)))" .
  with c t0 b t1 r1 r2 show ?thesis by blast
qed

section \<open>Properties of the result fetcher and of the requests\<close>







lemma request_failure:
  "transport_failure outcome \<Longrightarrow>
   and_then (send_request outcome) raise_for_status = Inl (failure_of outcome) \<and>
   is_HTTPError (failure_of outcome)"
  by (cases outcome)
     (simp_all add: transport_failure_def failure_of_def send_request_def raise_for_status_def
        and_then_def is_HTTPError_def)


lemma get_history_failure:
  "transport_failure outcome \<Longrightarrow>
   get_history outcome = Inl (HTTPException 500 (FailedToGetHistory (failure_of outcome)))"
  using request_failure[of outcome] by (simp add: get_history_def and_then_def)

lemma queue_prompt_failure:
  "transport_failure outcome \<Longrightarrow>
   queue_prompt outcome = Inl (HTTPException 503 (FailedToConnect (failure_of outcome)))"
  using request_failure[of outcome] by (simp add: queue_prompt_def and_then_def)

lemma save_image_failure:
  "transport_failure (view_response env params) \<Longrightarrow>
   save_image env files prompt_id output_dir params =
     (Inl (HTTPException 500 (FailedToDownload (failure_of (view_response env params)))), files)"
  using request_failure[of "view_response env params"] by (simp add: save_image_def)





lemmas fetch_defs =
  get_history_def send_request_def raise_for_status_def response_json_def and_then_def
  is_HTTPError_def history_of_def recorded_jobs_def




lemmas fetch_eval =
  download_image_def locate_image_def image_params_def save_image_def find_image.simps
  py_in_def py_getitem_def py_get_def py_items_def py_len_def py_first_def truthy_def
  dict_get_def open_wb_def format_value_def Let_def


text \<open>
  Claim C7, amended. A failure of the transport (no response, or a status that is not
  2xx) makes the history query fail with status 500, and with it the fetch; the same
  failure of the download makes the fetch fail with status 500; the submission answers
  the same failure with status 503.
\<close>

theorem transport_failures_classified:
  assumes "transport_failure outcome"
  shows "get_history outcome = Inl (HTTPException 500 (FailedToGetHistory (failure_of outcome))) \<and>
     (history_response env prompt_id = outcome \<longrightarrow>
        download_image env files prompt_id output_dir =
          (Inl (HTTPException 500 (FailedToGetHistory (failure_of outcome))), files)) \<and>
     (\<forall>history image_info params.
        get_history (history_response env prompt_id) = Inr history \<and>
        locate_image history prompt_id = Inr image_info \<and>
        image_params image_info = Inr params \<and>
        view_response env params = outcome \<longrightarrow>
        download_image env files prompt_id output_dir =
          (Inl (HTTPException 500 (FailedToDownload (failure_of outcome))), files)) \<and>
     queue_prompt outcome = Inl (HTTPException 503 (FailedToConnect (failure_of outcome)))"
proof -
  note h = get_history_failure[OF assms]
  have a: "download_image env files prompt_id output_dir =
          (Inl (HTTPException 500 (FailedToGetHistory (failure_of outcome))), files)"
    if "history_response env prompt_id = outcome"
    using h that by (simp add: download_image_def and_then_def)
  have b: "download_image env files prompt_id output_dir =
          (Inl (HTTPException 500 (FailedToDownload (failure_of outcome))), files)"
    if "get_history (history_response env prompt_id) = Inr history"
      and "locate_image history prompt_id = Inr image_info"
      and "image_params image_info = Inr params"
      and "view_response env params = outcome" for history image_info params
    using that save_image_failure[of env params files prompt_id output_dir] assms
    by (simp add: download_image_def and_then_def)
  show ?thesis using h a b queue_prompt_failure[OF assms] by blast
qed

theorem transport_failures_classified_witness:
  "transport_failure (RequestFails ''connection refused'') \<and>
   get_history (RequestFails ''connection refused'') =
     Inl (HTTPException 500 (FailedToGetHistory (TransportError ''connection refused''))) \<and>
   queue_prompt (RequestFails ''connection refused'') =
     Inl (HTTPException 503 (FailedToConnect (TransportError ''connection refused''))) \<and>
   download_image history_down Map.empty ''job-1'' ''./output'' =
     (Inl (HTTPException 500 (FailedToGetHistory (HTTPStatusError 502))), Map.empty)"
proof -
  have t: "transport_failure (RequestFails ''connection refused'')"
    by (simp add: transport_failure_def)
  have f: "failure_of (RequestFails ''connection refused'') = TransportError ''connection refused''"
    by (simp add: failure_of_def)
  let ?bad = "Responds \<lparr>status_code = 502, content = ''Bad Gateway'', json_body = None\<rparr>"
  have t2: "transport_failure ?bad" by (simp add: transport_failure_def)
  have f2: "failure_of ?bad = HTTPStatusError 502" by (simp add: failure_of_def)
  have r2: "history_response history_down ''job-1'' = ?bad" by (simp add: history_down_def)
  from transport_failures_classified[OF t] f
  have a: "get_history (RequestFails ''connection refused'') =
     Inl (HTTPException 500 (FailedToGetHistory (TransportError ''connection refused'')))"
    and b: "queue_prompt (RequestFails ''connection refused'') =
     Inl (HTTPException 503 (FailedToConnect (TransportError ''connection refused'')))"
    by simp_all
  from transport_failures_classified[OF t2, of history_down "''job-1''" Map.empty "''./output''"] r2 f2
  have c: "download_image history_down Map.empty ''job-1'' ''./output'' =
     (Inl (HTTPException 500 (FailedToGetHistory (HTTPStatusError 502))), Map.empty)"
    by simp
  show ?thesis by (intro conjI t a b c)
qed

text \<open>
  The claim as first stated gives the history query and the download the status of the
  submission; the same response has status 500 from one and 503 from the other.
\<close>

theorem transport_failures_classified_counterexample:
  "get_history (Responds \<lparr>status_code = 503, content = [], json_body = None\<rparr>) =
     Inl (HTTPException 500 (FailedToGetHistory (HTTPStatusError 503))) \<and>
   queue_prompt (Responds \<lparr>status_code = 503, content = [], json_body = None\<rparr>) =
     Inl (HTTPException 503 (FailedToConnect (HTTPStatusError 503))) \<and>
   download_image view_down Map.empty ''job-1'' ''./output'' =
     (Inl (HTTPException 500 (FailedToDownload (TransportError ''connection refused''))), Map.empty)"
  by (simp add: view_down_def queue_prompt_def fetch_defs fetch_eval)

end
